theory Spec2Isabelle
  imports Complex_Main "HOL-Library.Word" "HOL-Library.Log_Nat"
begin

section \<open>JavaScript strings\<close>

text \<open>
  A JavaScript string is a sequence of UTF-16 code units; \<open>length\<close> counts code units and
  the regular expressions of the sources (none carries the \<open>u\<close> flag) work on code units.
\<close>

type_synonym code_unit = "16 word"
type_synonym jsstring = "code_unit list"

definition js :: "string \<Rightarrow> jsstring" where
  \<comment> \<open>an ASCII literal of the source as a JavaScript string\<close>
  "js s = map of_char s"

definition SP :: code_unit where "SP = 0x20"
definition NL :: code_unit where "NL = 0x0A"

definition isWhiteSpace :: "code_unit \<Rightarrow> bool" where
  \<comment> \<open>the class \<open>\s\<close> of ECMAScript, which is also what \<open>String.prototype.trim\<close> strips:
      TAB, LF, VT, FF, CR, SPACE, NBSP, U+1680, U+2000..U+200A, LS, PS, U+202F, U+205F,
      U+3000 and the byte order mark\<close>
  "isWhiteSpace c =
     (c \<in> set [0x09, 0x0A, 0x0B, 0x0C, 0x0D, 0x20, 0xA0, 0x1680,
                0x2028, 0x2029, 0x202F, 0x205F, 0x3000, 0xFEFF]
      \<or> (0x2000 \<le> c \<and> c \<le> 0x200A))"

definition isQuoteChar :: "code_unit \<Rightarrow> bool" where
  \<comment> \<open>the class \<open>["'"'"`]\<close> of \<open>cleanQuote\<close>: double quote, apostrophe, backtick\<close>
  "isQuoteChar c = (c \<in> set [0x22, 0x27, 0x60])"

definition isPrintableOrNL :: "code_unit \<Rightarrow> bool" where
  \<comment> \<open>the complement of the class \<open>[^\x20-\x7E\n]\<close> of \<open>cleanContent\<close>\<close>
  "isPrintableOrNL c = ((0x20 \<le> c \<and> c \<le> 0x7E) \<or> c = NL)"

definition trim :: "jsstring \<Rightarrow> jsstring" where
  \<comment> \<open>\<open>String.prototype.trim\<close>\<close>
  "trim s = rev (dropWhile isWhiteSpace (rev (dropWhile isWhiteSpace s)))"

function collapse_ws :: "jsstring \<Rightarrow> jsstring" where
  \<comment> \<open>\<open>.replace(/\s+/g, ' ')\<close>: every maximal run of white space becomes one space\<close>
  "collapse_ws [] = []"
| "collapse_ws (c # cs) =
     (if isWhiteSpace c then SP # collapse_ws (dropWhile isWhiteSpace cs)
      else c # collapse_ws cs)"
  by pat_completeness auto
termination
  by (relation "measure length") (auto simp: le_imp_less_Suc length_dropWhile_le)

definition strip_leading_quote :: "jsstring \<Rightarrow> jsstring" where
  \<comment> \<open>\<open>.replace(/^["'"'"`]/, '')\<close>\<close>
  "strip_leading_quote s =
     (case s of [] \<Rightarrow> [] | c # cs \<Rightarrow> if isQuoteChar c then cs else s)"

definition strip_trailing_quote :: "jsstring \<Rightarrow> jsstring" where
  \<comment> \<open>\<open>.replace(/["'"'"`]$/, '')\<close>; without the \<open>m\<close> flag \<open>$\<close> is the end of the string\<close>
  "strip_trailing_quote s =
     (if s \<noteq> [] \<and> isQuoteChar (last s) then butlast s else s)"

definition strip_leading_dash :: "jsstring \<Rightarrow> jsstring" where
  \<comment> \<open>\<open>.replace(/^- /, '')\<close>: a hyphen-minus followed by a space character\<close>
  "strip_leading_dash s =
     (case s of [] \<Rightarrow> [] | c # cs \<Rightarrow>
        (case cs of [] \<Rightarrow> s | d # ds \<Rightarrow> if c = 0x2D \<and> d = SP then ds else s))"

definition after_last_NL :: "jsstring \<Rightarrow> jsstring option" where
  \<comment> \<open>for the text \<open>cs\<close> that follows a line feed: where a match of \<open>\n\s*\n\<close> ends. The
      greedy \<open>\s*\<close> takes the whole run of white space at the head of \<open>cs\<close> and gives
      back down to the last line feed of the run; with no line feed in the run there is no
      match.\<close>
  "after_last_NL cs =
     (let run = takeWhile isWhiteSpace cs;
          tail = takeWhile (\<lambda>c. c \<noteq> NL) (rev run)
      in if NL \<in> set run then Some (drop (length run - length tail) cs) else None)"

function collapse_blank_lines :: "jsstring \<Rightarrow> jsstring" where
  \<comment> \<open>\<open>.replace(/\n\s*\n/g, '\n\n')\<close>\<close>
  "collapse_blank_lines [] = []"
| "collapse_blank_lines (c # cs) =
     (if c = NL then
        (case after_last_NL cs of
           Some rest \<Rightarrow> NL # NL # collapse_blank_lines rest
         | None \<Rightarrow> c # collapse_blank_lines cs)
      else c # collapse_blank_lines cs)"
  by pat_completeness auto
termination
  by (relation "measure length")
     (auto simp: le_imp_less_Suc after_last_NL_def Let_def split: if_splits)

fun replace_first :: "jsstring \<Rightarrow> jsstring \<Rightarrow> jsstring \<Rightarrow> jsstring" where
  \<comment> \<open>\<open>s.replace(pat, rep)\<close> with a string pattern (and a replacement without \<open>$\<close>): only
      the first occurrence of \<open>pat\<close>, wherever it is, is replaced\<close>
  "replace_first pat rep [] = (if pat = [] then rep else [])"
| "replace_first pat rep (c # cs) =
     (if take (length pat) (c # cs) = pat then rep @ drop (length pat) (c # cs)
      else c # replace_first pat rep cs)"

fun join :: "jsstring \<Rightarrow> jsstring list \<Rightarrow> jsstring" where
  \<comment> \<open>\<open>Array.prototype.join\<close> on an array of strings\<close>
  "join sep [] = []"
| "join sep [x] = x"
| "join sep (x # y # ys) = x @ sep @ join sep (y # ys)"

definition Math_round :: "rat \<Rightarrow> int" where
  \<comment> \<open>\<open>Math.round\<close> on a finite number: the nearest integer, halves towards \<open>+\<infinity>\<close>\<close>
  "Math_round q = \<lfloor>q + 1 / 2\<rfloor>"

datatype js_number = Num rat | PosInfinity | NegInfinity | NaN

definition js_divide :: "int \<Rightarrow> int \<Rightarrow> js_number" where
  \<comment> \<open>the operator \<open>/\<close> on two integers: division by zero does not throw\<close>
  "js_divide a b =
     (if b = 0 then (if a = 0 then NaN else if 0 < a then PosInfinity else NegInfinity)
      else Num (of_int a / of_int b))"

fun Math_round_number :: "js_number \<Rightarrow> js_number" where
  "Math_round_number (Num q) = Num (of_int (Math_round q))"
| "Math_round_number x = x"

fun isFinite :: "js_number \<Rightarrow> bool" where
  "isFinite (Num q) = True"
| "isFinite x = False"

section \<open>Binary64 products\<close>

text \<open>
  Numbers are IEEE binary64. A non-negative one is written here as a pair \<open>(s, e)\<close> for the
  value \<open>s / 2 ^ e\<close>, with a significand \<open>s\<close> below \<open>2 ^ 53\<close> and \<open>e\<close> at most 1074 (the
  smallest positive number is \<open>2 ^ -1074\<close>). The product of such a number and an integer
  \<open>n\<close> below \<open>2 ^ 53\<close> is the exact product \<open>s * n / 2 ^ e\<close> rounded to 53 significant bits,
  ties to even: a product of more than 53 bits lies in the normal range, and a shorter
  one is a number already.
\<close>

definition two53 :: nat where
  "two53 = 2 ^ 53"

definition round53 :: "nat \<Rightarrow> nat" where
  \<comment> \<open>rounding to the nearest integer with at most 53 significant bits, ties to the even
      significand; \<open>floorlog 2 N\<close> is the number of bits of \<open>N\<close>\<close>
  "round53 N =
     (let d = floorlog 2 N - 53;
          q = N div 2 ^ d;
          r = N mod 2 ^ d
      in if 2 ^ d < 2 * r \<or> (2 * r = 2 ^ d \<and> odd q) then (q + 1) * 2 ^ d else q * 2 ^ d)"

definition is_unit_double :: "nat \<times> nat \<Rightarrow> bool" where
  \<comment> \<open>the pair stands for a number that \<open>Math.random()\<close> may return: at least 0, below 1\<close>
  "is_unit_double x = (case x of (s, e) \<Rightarrow> s < two53 \<and> e \<le> 1074 \<and> s < 2 ^ e)"

definition random_value :: "nat \<times> nat \<Rightarrow> real" where
  "random_value x = (case x of (s, e) \<Rightarrow> real s / 2 ^ e)"

definition exact_index :: "nat \<times> nat \<Rightarrow> nat \<Rightarrow> nat" where
  \<comment> \<open>the integer part of the exact product of the number and \<open>n\<close>\<close>
  "exact_index x n = (case x of (s, e) \<Rightarrow> (s * n) div 2 ^ e)"

section \<open>Quote extractor\<close>

definition cleanQuote :: "jsstring option \<Rightarrow> jsstring option" where
  \<comment> \<open>\<open>QuoteExtractor.cleanQuote\<close>. The argument is \<open>None\<close> for \<open>undefined\<close> or \<open>null\<close>;
      \<open>!rawQuote\<close> also holds of the empty string. The result is \<open>None\<close> for \<open>null\<close>.\<close>
  "cleanQuote rawQuote =
     (case rawQuote of
        None \<Rightarrow> None
      | Some s \<Rightarrow>
          if s = [] then None
          else Some (trim (collapse_ws (strip_leading_dash
                 (strip_trailing_quote (strip_leading_quote (trim s)))))))"

definition ERROR_NO_QUOTE :: jsstring where
  "ERROR_NO_QUOTE = js ''ERROR_NO_QUOTE''"

datatype error =
    UnsupportedProvider jsstring  \<comment> \<open>'Unsupported provider: ...'\<close>
  | NoValidQuote                \<comment> \<open>'No valid quote extracted from response'\<close>
  | NotAnArrayError             \<comment> \<open>'Interview data must be an array of objects'\<close>
  | NoInterviewsAvailable       \<comment> \<open>'No interviews available'\<close>
  | EmailConfigIncomplete       \<comment> \<open>'Email configuration is incomplete'\<close>
  | NoRecipients                \<comment> \<open>'No recipients specified'\<close>
  | NoInterviewContent          \<comment> \<open>'No interview content available'\<close>
  | NoMeaningfulQuotes          \<comment> \<open>'No meaningful quotes extracted'\<close>
  | TypeError                   \<comment> \<open>raised by the runtime, e.g. a property read on \<open>undefined\<close>\<close>
  | External jsstring           \<comment> \<open>whatever a library or the platform throws (file system,
                                    JSON parser, AI client, SMTP transport)\<close>

datatype 'a outcome = Threw error | Returned 'a

record quote_result =
  quote_text :: jsstring      \<comment> \<open>field \<open>text\<close>\<close>
  quote_source :: jsstring    \<comment> \<open>field \<open>source\<close>\<close>
  extractedAt :: jsstring

record extractor =
  provider :: jsstring

definition supported_providers :: "jsstring list" where
  "supported_providers =
     [js ''openai'', js ''anthropic'', js ''gemini'', js ''ollama'', js ''transformers'']"

record ai_env =
  backend :: "jsstring \<Rightarrow> jsstring \<Rightarrow> jsstring \<Rightarrow> jsstring option outcome"
    \<comment> \<open>the call of the selected backend (\<open>extractWithOpenAI\<close> and its siblings) for a
        provider, and for the content and the title from which \<open>buildPrompt\<close> makes the
        prompt: it throws, or resolves to the response text, which the optional chaining of
        the sources may leave \<open>undefined\<close>\<close>
  ai_now :: jsstring
    \<comment> \<open>\<open>new Date().toISOString()\<close>\<close>

definition extractQuotes ::
  "ai_env \<Rightarrow> extractor \<Rightarrow> jsstring \<Rightarrow> jsstring \<Rightarrow> quote_result list option outcome" where
  \<comment> \<open>\<open>QuoteExtractor.extractQuotes\<close> of the five-provider extractor. \<open>Returned None\<close> is
      the \<open>null\<close> of the source ("no quote found").\<close>
  "extractQuotes env ex content title =
     (if provider ex \<notin> set supported_providers then Threw (UnsupportedProvider (provider ex))
      else case backend env (provider ex) content title of
        Threw e \<Rightarrow> Threw e
      | Returned response \<Rightarrow>
          (case cleanQuote response of
             None \<Rightarrow> Returned None
           | Some cleanedQuote \<Rightarrow>
               if cleanedQuote = [] \<or> cleanedQuote = ERROR_NO_QUOTE then Returned None
               else Returned (Some [\<lparr> quote_text = cleanedQuote, quote_source = provider ex,
                                       extractedAt = ai_now env \<rparr>])))"

definition legacy_providers :: "jsstring list" where
  "legacy_providers = [js ''openai'', js ''anthropic'', js ''gemini'']"

definition extractQuotes_legacy ::
  "ai_env \<Rightarrow> extractor \<Rightarrow> jsstring \<Rightarrow> jsstring \<Rightarrow> quote_result list outcome" where
  \<comment> \<open>\<open>extractQuotes\<close> of the three-provider revision of the extractor
      (\<open>src/quote-extractor/quote-extractor.js\<close>), whose prompt knows no sentinel\<close>
  "extractQuotes_legacy env ex content title =
     (if provider ex \<notin> set legacy_providers then Threw (UnsupportedProvider (provider ex))
      else case backend env (provider ex) content title of
        Threw e \<Rightarrow> Threw e
      | Returned response \<Rightarrow>
          (case cleanQuote response of
             None \<Rightarrow> Threw NoValidQuote
           | Some cleanedQuote \<Rightarrow>
               if cleanedQuote = [] then Threw NoValidQuote
               else Returned [\<lparr> quote_text = cleanedQuote, quote_source = provider ex,
                                 extractedAt = ai_now env \<rparr>]))"

section \<open>Normal forms of cleaned strings\<close>

fun single_spaced :: "jsstring \<Rightarrow> bool" where
  \<comment> \<open>the only white space is the space character, and no two of them are adjacent\<close>
  "single_spaced [] = True"
| "single_spaced (c # cs) =
     ((isWhiteSpace c \<longrightarrow> c = SP \<and> (cs = [] \<or> \<not> isWhiteSpace (hd cs))) \<and> single_spaced cs)"

definition trimmed :: "jsstring \<Rightarrow> bool" where
  "trimmed t = (t = [] \<or> (\<not> isWhiteSpace (hd t) \<and> \<not> isWhiteSpace (last t)))"

section \<open>Interview reader\<close>

record raw_interview =
  \<comment> \<open>an element of the parsed JSON array, whose fields are strings where they are present,
      as the format of the file has it; a field is \<open>None\<close> when it is absent or \<open>null\<close> (an
      element that is \<open>null\<close> or no object behaves like one without fields)\<close>
  raw_url :: "jsstring option"
  raw_text :: "jsstring option"

datatype json_doc = NotArray | Array "raw_interview list"

definition truthy :: "jsstring option \<Rightarrow> bool" where
  \<comment> \<open>the truth value of a string-or-missing field: the empty string is falsy too\<close>
  "truthy v = (case v of None \<Rightarrow> False | Some s \<Rightarrow> s \<noteq> [])"

record interview =
  id_num :: nat           \<comment> \<open>field \<open>id\<close> is the string \<open>interview-\<close> followed by this number\<close>
  url :: jsstring
  title :: jsstring
  content :: jsstring
  source :: jsstring
  loadedAt :: jsstring

record reader_env =
  URL_hostname :: "jsstring \<Rightarrow> jsstring option"
    \<comment> \<open>\<open>new URL(url).hostname\<close> of the platform; \<open>None\<close> when the constructor throws\<close>
  extractTitle :: "jsstring \<Rightarrow> jsstring \<Rightarrow> jsstring"
    \<comment> \<open>\<open>InterviewReader.extractTitle(text, url)\<close>, which always returns a string\<close>
  readParsed :: "json_doc outcome"
    \<comment> \<open>\<open>JSON.parse(await fs.readFile(...))\<close>: either call may throw\<close>
  check_time :: int
    \<comment> \<open>\<open>Date.now()\<close> at the staleness test\<close>
  load_time :: int
    \<comment> \<open>\<open>Date.now()\<close> at the end of a load\<close>
  iso_time :: jsstring
    \<comment> \<open>\<open>new Date().toISOString()\<close>\<close>
  Math_random :: "nat \<times> nat"
    \<comment> \<open>\<open>Math.random()\<close>: the binary64 number \<open>s / 2 ^ e\<close> as the pair \<open>(s, e)\<close>\<close>

record reader =
  interviews :: "interview list option"    \<comment> \<open>\<open>None\<close> is \<open>null\<close>\<close>
  lastLoadTime :: "int option"
  file_reads :: nat    \<comment> \<open>instrumentation: how often the file has been read\<close>

definition extractSource :: "reader_env \<Rightarrow> jsstring \<Rightarrow> jsstring" where
  "extractSource env u =
     (case URL_hostname env u of
        None \<Rightarrow> js ''Unknown Source''
      | Some hostname \<Rightarrow> replace_first (js ''www.'') [] hostname)"

definition cleanContent :: "jsstring \<Rightarrow> jsstring" where
  "cleanContent c =
     trim (filter isPrintableOrNL (collapse_blank_lines (collapse_ws c)))"

definition make_interview :: "reader_env \<Rightarrow> nat \<times> raw_interview \<Rightarrow> interview" where
  \<comment> \<open>the callback of \<open>.map\<close> in \<open>loadInterviews\<close>, on an (index, element) pair; it is only
      applied to elements whose two fields are truthy\<close>
  "make_interview env p =
     (case p of (index, e) \<Rightarrow>
        \<lparr> id_num = index + 1,
          url = the (raw_url e),
          title = extractTitle env (the (raw_text e)) (the (raw_url e)),
          content = cleanContent (the (raw_text e)),
          source = extractSource env (the (raw_url e)),
          loadedAt = iso_time env \<rparr>)"

definition has_url_and_text :: "raw_interview \<Rightarrow> bool" where
  \<comment> \<open>the first filter: \<open>interview && interview.url && interview.text\<close>\<close>
  "has_url_and_text e = (truthy (raw_url e) \<and> truthy (raw_text e))"

definition process_entries :: "reader_env \<Rightarrow> raw_interview list \<Rightarrow> interview list" where
  \<comment> \<open>the filter, map, filter chain of \<open>loadInterviews\<close>\<close>
  "process_entries env data =
     filter (\<lambda>i. length (content i) > 100)
       (map (make_interview env) (enumerate 0 (filter has_url_and_text data)))"

definition excluded :: "raw_interview \<Rightarrow> bool" where
  \<comment> \<open>an element that does not make it into the collection: its url or text is missing
      (or empty), or its cleaned text has 100 code units or fewer\<close>
  "excluded e =
     (\<not> truthy (raw_url e) \<or> \<not> truthy (raw_text e) \<or>
      length (cleanContent (the (raw_text e))) \<le> 100)"

definition loadInterviews :: "reader_env \<Rightarrow> reader \<Rightarrow> interview list outcome \<times> reader" where
  "loadInterviews env r =
     (let r1 = r\<lparr> file_reads := file_reads r + 1 \<rparr> in
      case readParsed env of
        Threw e \<Rightarrow> (Threw e, r1)
      | Returned NotArray \<Rightarrow> (Threw NotAnArrayError, r1)
      | Returned (Array data) \<Rightarrow>
          (let loaded = process_entries env data in
           (Returned loaded,
            r1\<lparr> interviews := Some loaded, lastLoadTime := Some (load_time env) \<rparr>)))"

definition last_load :: "reader \<Rightarrow> int" where
  \<comment> \<open>\<open>this.lastLoadTime\<close> as a number: \<open>null\<close> counts as 0 in arithmetic and in \<open>new Date\<close>\<close>
  "last_load r = (case lastLoadTime r of None \<Rightarrow> 0 | Some t \<Rightarrow> t)"

definition needs_load :: "reader_env \<Rightarrow> reader \<Rightarrow> bool" where
  \<comment> \<open>\<open>!this.interviews || (Date.now() - this.lastLoadTime > 300000)\<close>; an empty array is
      truthy\<close>
  "needs_load env r = (interviews r = None \<or> check_time env - last_load r > 300000)"

definition random_index :: "nat \<times> nat \<Rightarrow> nat \<Rightarrow> nat" where
  \<comment> \<open>\<open>Math.floor(Math.random() * this.interviews.length)\<close>: the product is the binary64
      product, which is rounded, and \<open>Math.floor\<close> of a binary64 number is exact\<close>
  "random_index x n = (case x of (s, e) \<Rightarrow> round53 (s * n) div 2 ^ e)"

definition getRandomInterview :: "reader_env \<Rightarrow> reader \<Rightarrow> interview outcome \<times> reader" where
  "getRandomInterview env r =
     (case (if needs_load env r then loadInterviews env r else (Returned [], r)) of
        (Threw e, r1) \<Rightarrow> (Threw e, r1)
      | (Returned _, r1) \<Rightarrow>
          (case interviews r1 of
             None \<Rightarrow> (Threw NoInterviewsAvailable, r1)
           | Some xs \<Rightarrow>
               if length xs = 0 then (Threw NoInterviewsAvailable, r1)
               else
                 (let i = random_index (Math_random env) (length xs) in
                  if i < length xs then (Returned (xs ! i), r1)
                  else (Threw TypeError, r1))))"

record stats =
  total_n :: nat                        \<comment> \<open>field \<open>total\<close>\<close>
  averageLength :: js_number
  sources :: "jsstring list option"     \<comment> \<open>\<open>None\<close>: the field is not there\<close>
  lastLoaded :: "int option"            \<comment> \<open>the time stamp that is printed; \<open>None\<close>: not there\<close>

definition zero_stats :: stats where
  \<comment> \<open>\<open>{ total: 0, averageLength: 0 }\<close>\<close>
  "zero_stats = \<lparr> total_n = 0, averageLength = Num 0, sources = None, lastLoaded = None \<rparr>"

definition getStats :: "reader \<Rightarrow> stats" where
  "getStats r =
     (case interviews r of
        None \<Rightarrow> zero_stats
      | Some xs \<Rightarrow>
          (let totalLength = (\<Sum>i\<leftarrow>xs. int (length (content i))) in
           \<lparr> total_n = length xs,
             averageLength = Math_round_number (js_divide totalLength (int (length xs))),
             sources = Some (rev (remdups (rev (map source xs)))),
             lastLoaded = Some (last_load r) \<rparr>))"

section \<open>Email sender\<close>

record mail =
  mail_to :: jsstring
  mail_subject :: jsstring
  mail_text :: jsstring
  mail_html :: jsstring

datatype smtp_call = Verify | SendMail mail

record mail_env =
  verify :: "error option"
    \<comment> \<open>\<open>transporter.verify()\<close>: the error it rejects with, if any\<close>
  sendMail :: "jsstring outcome"
    \<comment> \<open>\<open>transporter.sendMail(mailOptions)\<close>: it throws, or resolves to a message id\<close>
  sent_time :: jsstring

record sender =
  isConfigured :: bool
  transporter :: bool        \<comment> \<open>\<open>False\<close> is \<open>null\<close>\<close>
  smtp_calls :: "smtp_call list"
    \<comment> \<open>instrumentation: the network calls made through the transport, oldest first\<close>
  delivered :: "mail list"
    \<comment> \<open>instrumentation: the messages whose \<open>sendMail\<close> call resolved\<close>

record receipt =
  messageId :: jsstring
  receipt_recipients :: "jsstring list"
  sentAt :: jsstring

definition init :: "mail_env \<Rightarrow> sender \<Rightarrow> unit outcome \<times> sender" where
  \<comment> \<open>\<open>EmailSender.init\<close>: the transport is stored before it is verified\<close>
  "init env s =
     (if \<not> isConfigured s then (Threw EmailConfigIncomplete, s)
      else
        (let s1 = s\<lparr> transporter := True, smtp_calls := smtp_calls s @ [Verify] \<rparr> in
         case verify env of
           Some e \<Rightarrow> (Threw e, s1)
         | None \<Rightarrow> (Returned (), s1)))"

definition sendQuoteEmail ::
  "mail_env \<Rightarrow> sender \<Rightarrow> jsstring list \<Rightarrow> jsstring \<Rightarrow> jsstring \<Rightarrow> jsstring
     \<Rightarrow> receipt outcome \<times> sender" where
  "sendQuoteEmail env s recipients subject textContent htmlContent =
     (case (if \<not> transporter s then init env s else (Returned (), s)) of
        (Threw e, s1) \<Rightarrow> (Threw e, s1)
      | (Returned _, s1) \<Rightarrow>
          if length recipients = 0 then (Threw NoRecipients, s1)
          else
            (let m = \<lparr> mail_to = join (js '', '') recipients, mail_subject = subject,
                       mail_text = textContent, mail_html = htmlContent \<rparr>;
                 s2 = s1\<lparr> smtp_calls := smtp_calls s1 @ [SendMail m] \<rparr>
             in case sendMail env of
                  Threw e \<Rightarrow> (Threw e, s2)
                | Returned mid \<Rightarrow>
                    (Returned \<lparr> messageId = mid, receipt_recipients = recipients,
                                sentAt = sent_time env \<rparr>,
                     s2\<lparr> delivered := delivered s2 @ [m] \<rparr>)))"

definition sendQuote ::
  "mail_env \<Rightarrow> (jsstring \<times> jsstring \<times> jsstring) \<Rightarrow> sender \<Rightarrow> jsstring list
     \<Rightarrow> receipt outcome \<times> sender" where
  \<comment> \<open>\<open>EmailSender.sendQuote\<close>; the first argument after the environment is what
      \<open>buildEmailContent(quoteData)\<close> yields: subject, text and html\<close>
  "sendQuote env emailContent s recipients =
     (case (if \<not> transporter s then init env s else (Returned (), s)) of
        (Threw e, s1) \<Rightarrow> (Threw e, s1)
      | (Returned _, s1) \<Rightarrow>
          if length recipients = 0 then (Threw NoRecipients, s1)
          else
            (case emailContent of (subject, textContent, htmlContent) \<Rightarrow>
              (let m = \<lparr> mail_to = join (js '', '') recipients, mail_subject = subject,
                         mail_text = textContent, mail_html = htmlContent \<rparr>;
                   s2 = s1\<lparr> smtp_calls := smtp_calls s1 @ [SendMail m] \<rparr>
               in case sendMail env of
                    Threw e \<Rightarrow> (Threw e, s2)
                  | Returned mid \<Rightarrow>
                      (Returned \<lparr> messageId = mid, receipt_recipients = recipients,
                                  sentAt = sent_time env \<rparr>,
                       s2\<lparr> delivered := delivered s2 @ [m] \<rparr>))))"

section \<open>Orchestrator\<close>

record run_result =
  success :: bool
  result_title :: jsstring       \<comment> \<open>\<open>interview.title\<close>\<close>
  result_url :: jsstring         \<comment> \<open>\<open>interview.url\<close>\<close>
  quote_count :: nat             \<comment> \<open>field \<open>quotes\<close>\<close>
  recipient_count :: nat         \<comment> \<open>field \<open>recipients\<close>\<close>
  duration :: int

record bot_env =
  reader_part :: reader_env
  ai_part :: ai_env
  mail_part :: mail_env
  getEmailRecipients :: "jsstring list"
    \<comment> \<open>\<open>config.getEmailRecipients()\<close>\<close>
  formatEmail :: "interview \<Rightarrow> quote_result list \<Rightarrow> jsstring \<times> jsstring"
    \<comment> \<open>\<open>RickOwensQuoteBot.formatEmail\<close>: the text and the html of the message\<close>
  start_time :: int
  end_time :: int

record bot =
  isRunning :: bool
  interviewReader :: reader
  quoteExtractor :: extractor
  emailSender :: sender

datatype pc =
    Entry
      \<comment> \<open>\<open>processQuote\<close> has been called and has not run yet\<close>
  | AwaitInterview
      \<comment> \<open>suspended at \<open>await this.interviewReader.getRandomInterview()\<close>\<close>
  | AwaitQuotes interview
      \<comment> \<open>suspended at \<open>await this.quoteExtractor.extractQuotes(...)\<close>\<close>
  | AwaitSend interview "quote_result list"
      \<comment> \<open>suspended at \<open>await this.emailSender.sendQuoteEmail(...)\<close>\<close>
  | Done "run_result option outcome"
      \<comment> \<open>settled: it threw, returned a summary, or returned \<open>undefined\<close> (\<open>None\<close>)\<close>

definition finish :: "run_result option outcome \<Rightarrow> bot \<Rightarrow> pc \<times> bot" where
  \<comment> \<open>leaving the \<open>try\<close> block: the \<open>catch\<close> clause rethrows, and \<open>finally\<close> clears the guard\<close>
  "finish r b = (Done r, b\<lparr> isRunning := False \<rparr>)"

fun step :: "bot_env \<Rightarrow> pc \<Rightarrow> bot \<Rightarrow> pc \<times> bot" where
  \<comment> \<open>one invocation of \<open>processQuote\<close> runs from one \<open>await\<close> to the next without
      interruption; the effect of the awaited operation is placed at its resumption\<close>
  "step env Entry b =
     (if isRunning b then (Done (Returned None), b)
      else (AwaitInterview, b\<lparr> isRunning := True \<rparr>))"
| "step env AwaitInterview b =
     (case getRandomInterview (reader_part env) (interviewReader b) of
        (Threw e, r) \<Rightarrow> finish (Threw e) (b\<lparr> interviewReader := r \<rparr>)
      | (Returned interview, r) \<Rightarrow>
          if content interview = []
          then finish (Threw NoInterviewContent) (b\<lparr> interviewReader := r \<rparr>)
          else (AwaitQuotes interview, b\<lparr> interviewReader := r \<rparr>))"
| "step env (AwaitQuotes interview) b =
     (case extractQuotes (ai_part env) (quoteExtractor b) (content interview) (title interview) of
        Threw e \<Rightarrow> finish (Threw e) b
      | Returned None \<Rightarrow> finish (Threw NoMeaningfulQuotes) b
      | Returned (Some quotes) \<Rightarrow>
          if length quotes = 0 then finish (Threw NoMeaningfulQuotes) b
          else (AwaitSend interview quotes, b))"
| "step env (AwaitSend interview quotes) b =
     (let recipients = getEmailRecipients env;
          emailContent = formatEmail env interview quotes
      in case sendQuoteEmail (mail_part env) (emailSender b) recipients
                (js ''OWENSQUOTE: '' @ title interview) (fst emailContent) (snd emailContent) of
           (Threw e, s) \<Rightarrow> finish (Threw e) (b\<lparr> emailSender := s \<rparr>)
         | (Returned _, s) \<Rightarrow>
             finish (Returned (Some
                 \<lparr> success = True, result_title = title interview, result_url = url interview,
                   quote_count = length quotes, recipient_count = length recipients,
                   duration = Math_round (of_int (end_time env - start_time env) / 1000) \<rparr>))
               (b\<lparr> emailSender := s \<rparr>))"
| "step env (Done r) b = (Done r, b)"

definition processQuote :: "bot_env \<Rightarrow> bot \<Rightarrow> pc \<times> bot" where
  \<comment> \<open>one invocation of \<open>processQuote\<close> with nothing else running in between: the
      synchronous prefix and the three resumptions\<close>
  "processQuote env b =
     (case step env Entry b of (p1, b1) \<Rightarrow>
      case step env p1 b1 of (p2, b2) \<Rightarrow>
      case step env p2 b2 of (p3, b3) \<Rightarrow>
        step env p3 b3)"

fun in_progress :: "pc \<Rightarrow> bool" where
  \<comment> \<open>past the guard and not yet settled\<close>
  "in_progress Entry = False"
| "in_progress (Done r) = False"
| "in_progress p = True"

fun sends :: "pc \<Rightarrow> nat" where
  \<comment> \<open>1 for an invocation that returned its summary, which it does after a completed send\<close>
  "sends (Done (Returned (Some rr))) = 1"
| "sends p = 0"

inductive interleave :: "bot_env \<Rightarrow> bot \<times> pc \<times> pc \<Rightarrow> bot \<times> pc \<times> pc \<Rightarrow> bool"
  for env :: bot_env where
  \<comment> \<open>two invocations of \<open>processQuote\<close> on one bot in one event loop: at any moment either
      of them may run its next piece\<close>
  first: "step env p b = (p', b') \<Longrightarrow> interleave env (b, p, q) (b', p', q)"
| second: "step env q b = (q', b') \<Longrightarrow> interleave env (b, p, q) (b', p, q')"

section \<open>Invariants of the orchestrator\<close>

fun remaining :: "pc \<Rightarrow> nat" where
  \<comment> \<open>how many pieces an invocation has still to run, at most\<close>
  "remaining Entry = 4"
| "remaining AwaitInterview = 3"
| "remaining (AwaitQuotes i) = 2"
| "remaining (AwaitSend i qs) = 1"
| "remaining (Done r) = 0"

definition mutex :: "bot \<times> pc \<times> pc \<Rightarrow> bool" where
  \<comment> \<open>the guard is set exactly while one of the two invocations is in progress, and they
      are never both in progress\<close>
  "mutex st =
     (case st of (b, p, q) \<Rightarrow>
        (isRunning b \<longleftrightarrow> in_progress p \<or> in_progress q) \<and> \<not> (in_progress p \<and> in_progress q))"

definition balance :: "bot \<times> pc \<times> pc \<Rightarrow> int" where
  \<comment> \<open>the delivered messages that are not accounted for by a returned summary\<close>
  "balance st =
     (case st of (b, p, q) \<Rightarrow>
        int (length (delivered (emailSender b))) - int (sends p) - int (sends q))"

section \<open>Stubs of the environment for concrete runs\<close>

definition stub_reader_env :: "json_doc outcome \<Rightarrow> int \<Rightarrow> nat \<times> nat \<Rightarrow> reader_env" where
  \<comment> \<open>a platform whose URL parser knows a few URLs, for a given outcome of reading the
      file, a given clock and a given random number\<close>
  "stub_reader_env doc now x =
     \<lparr> URL_hostname = (\<lambda>u. if u = js ''https://mywww.example.com/post''
                              then Some (js ''mywww.example.com'')
                            else if u = js ''https://www.example.com/post''
                              then Some (js ''www.example.com'')
                            else if u = js ''https://x.test/i1''
                              then Some (js ''x.test'')
                            else None),
       extractTitle = (\<lambda>t u. js ''Interview''),
       readParsed = doc,
       check_time = now, load_time = now,
       iso_time = js ''2025-01-01T09:00:00.000Z'',
       Math_random = x \<rparr>"

definition long_text :: jsstring where
  \<comment> \<open>150 times the letter A\<close>
  "long_text = replicate 150 0x41"

definition demo_entries :: "raw_interview list" where
  "demo_entries =
     [\<lparr> raw_url = None, raw_text = Some long_text \<rparr>,
      \<lparr> raw_url = Some (js ''https://x.test/i1''), raw_text = Some long_text \<rparr>,
      \<lparr> raw_url = Some (js ''https://x.test/i2''), raw_text = Some (js ''too short'') \<rparr>,
      \<lparr> raw_url = Some (js ''https://www.example.com/post''),
        raw_text = Some long_text \<rparr>]"

definition demo_loaded :: "interview list" where
  "demo_loaded =
     [\<lparr> id_num = 1, url = js ''https://x.test/i1'', title = js ''Interview'',
        content = long_text, source = js ''x.test'',
        loadedAt = js ''2025-01-01T09:00:00.000Z'' \<rparr>,
      \<lparr> id_num = 3, url = js ''https://www.example.com/post'', title = js ''Interview'',
        content = long_text, source = js ''example.com'',
        loadedAt = js ''2025-01-01T09:00:00.000Z'' \<rparr>]"

definition fresh_reader :: reader where
  \<comment> \<open>the reader as its constructor leaves it\<close>
  "fresh_reader = \<lparr> interviews = None, lastLoadTime = None, file_reads = 0 \<rparr>"

definition stub_ai_env :: "jsstring option \<Rightarrow> ai_env" where
  \<comment> \<open>a provider stub that answers every prompt with the same response\<close>
  "stub_ai_env response =
     \<lparr> backend = (\<lambda>p c t. Returned response), ai_now = js ''2025-01-01T09:00:00.000Z'' \<rparr>"

definition stub_mail_env :: "error option \<Rightarrow> mail_env" where
  \<comment> \<open>an SMTP server with a given answer to the liveness check, which accepts every message\<close>
  "stub_mail_env v =
     \<lparr> verify = v, sendMail = Returned (js ''<message-1@x.test>''),
       sent_time = js ''2025-01-01T09:00:01.000Z'' \<rparr>"

definition fresh_sender :: sender where
  \<comment> \<open>the sender as its constructor leaves it when the configuration is complete\<close>
  "fresh_sender =
     \<lparr> isConfigured = True, transporter = False, smtp_calls = [], delivered = [] \<rparr>"

definition demo_bot_env :: bot_env where
  \<comment> \<open>a run in which everything works: the file holds \<open>demo_entries\<close>, the provider answers
      with a quoted sentence, the server accepts the message\<close>
  "demo_bot_env =
     \<lparr> reader_part = stub_reader_env (Returned (Array demo_entries)) 1000 (0, 0),
       ai_part = stub_ai_env (Some (js ''  `Life is short.`  '')),
       mail_part = stub_mail_env None,
       getEmailRecipients = [js ''a@x.test'', js ''b@x.test''],
       formatEmail = (\<lambda>i qs. (quote_text (hd qs), quote_text (hd qs))),
       start_time = 1000, end_time = 3600 \<rparr>"

definition demo_bot :: bot where
  \<comment> \<open>the bot after \<open>init\<close>\<close>
  "demo_bot =
     \<lparr> isRunning = False, interviewReader = fresh_reader,
       quoteExtractor = \<lparr> provider = js ''openai'' \<rparr>, emailSender = fresh_sender \<rparr>"

definition failing_bot_env :: bot_env where
  \<comment> \<open>a run in which the interview file cannot be read\<close>
  "failing_bot_env =
     demo_bot_env\<lparr> reader_part := stub_reader_env (Threw (External (js ''ENOENT''))) 1000 (0, 0) \<rparr>"

definition demo_quote :: quote_result where
  "demo_quote =
     \<lparr> quote_text = js ''Life is short.'', quote_source = js ''openai'',
       extractedAt = js ''2025-01-01T09:00:00.000Z'' \<rparr>"

definition demo_mail :: mail where
  "demo_mail =
     \<lparr> mail_to = js ''a@x.test, b@x.test'', mail_subject = js ''OWENSQUOTE: Interview'',
       mail_text = js ''Life is short.'', mail_html = js ''Life is short.'' \<rparr>"

definition demo_result :: run_result where
  "demo_result =
     \<lparr> success = True, result_title = js ''Interview'', result_url = js ''https://x.test/i1'',
       quote_count = 1, recipient_count = 2, duration = 3 \<rparr>"

definition demo_bot_loaded :: bot where
  \<comment> \<open>\<open>demo_bot\<close> in the middle of its run, with the interviews loaded\<close>
  "demo_bot_loaded =
     \<lparr> isRunning = True,
       interviewReader =
         \<lparr> interviews = Some demo_loaded, lastLoadTime = Some 1000, file_reads = 1 \<rparr>,
       quoteExtractor = \<lparr> provider = js ''openai'' \<rparr>, emailSender = fresh_sender \<rparr>"

definition demo_bot_after :: bot where
  \<comment> \<open>\<open>demo_bot\<close> after its run\<close>
  "demo_bot_after =
     \<lparr> isRunning = False,
       interviewReader =
         \<lparr> interviews = Some demo_loaded, lastLoadTime = Some 1000, file_reads = 1 \<rparr>,
       quoteExtractor = \<lparr> provider = js ''openai'' \<rparr>,
       emailSender =
         \<lparr> isConfigured = True, transporter = True,
           smtp_calls = [Verify, SendMail demo_mail], delivered = [demo_mail] \<rparr> \<rparr>"

section \<open>Properties of the quote extractor\<close>

lemma isWhiteSpace_simps [simp]:
  "isWhiteSpace SP" "isWhiteSpace NL" "\<not> isWhiteSpace 0x2D"
  "isQuoteChar c \<Longrightarrow> \<not> isWhiteSpace c"
  by (auto simp: isWhiteSpace_def isQuoteChar_def SP_def NL_def)

text \<open>
  C1. The property does not hold of \<open>extractQuotes\<close> in the three-provider revision of the
  extractor, which has no sentinel: there an answer that cleans to the empty string makes
  the call throw, and the answer \<open>ERROR_NO_QUOTE\<close> comes back as the text of a quote.
\<close>

theorem extractQuotes_legacy_returns_sentinel:
  "extractQuotes_legacy (stub_ai_env (Some (js ''  ''))) \<lparr> provider = js ''openai'' \<rparr>
       (js ''body'') (js ''title'') = Threw NoValidQuote \<and>
   extractQuotes_legacy (stub_ai_env (Some (js ''ERROR_NO_QUOTE''))) \<lparr> provider = js ''openai'' \<rparr>
       (js ''body'') (js ''title'') =
     Returned [\<lparr> quote_text = ERROR_NO_QUOTE, quote_source = js ''openai'',
                  extractedAt = js ''2025-01-01T09:00:00.000Z'' \<rparr>]"
  by code_simp

text \<open>
  C1, for \<open>extractQuotes\<close> of the five-provider extractor, whose prompt defines the
  sentinel. Whenever the selected backend answers and the cleaned answer is \<open>null\<close>, empty
  or exactly the sentinel \<open>ERROR_NO_QUOTE\<close>, \<open>extractQuotes\<close> returns \<open>null\<close> (the absent
  result) and does not throw; and no quote record it ever returns carries the sentinel (or
  the empty string) as its text.
\<close>

theorem extractQuotes_sentinel_absent:
  "(provider ex \<in> set supported_providers \<and>
    backend env (provider ex) body ttl = Returned response \<and>
    cleanQuote response \<in> {None, Some [], Some ERROR_NO_QUOTE}
      \<longrightarrow> extractQuotes env ex body ttl = Returned None) \<and>
   (\<forall>qs. extractQuotes env ex body ttl = Returned (Some qs)
      \<longrightarrow> (\<forall>q \<in> set qs. quote_text q \<noteq> ERROR_NO_QUOTE \<and> quote_text q \<noteq> []))"
  by (auto simp: extractQuotes_def split: outcome.splits option.splits if_splits)

theorem extractQuotes_sentinel_absent_witness:
  "extractQuotes (stub_ai_env (Some (js ''  ERROR_NO_QUOTE ''))) \<lparr> provider = js ''ollama'' \<rparr>
       (js ''body'') (js ''title'') = Returned None \<and>
   extractQuotes (stub_ai_env (Some (js '' `Life   is short.` ''))) \<lparr> provider = js ''openai'' \<rparr>
       (js ''body'') (js ''title'') =
     Returned (Some [\<lparr> quote_text = js ''Life is short.'', quote_source = js ''openai'',
                        extractedAt = js ''2025-01-01T09:00:00.000Z'' \<rparr>]) \<and>
   js ''Life is short.'' \<noteq> ERROR_NO_QUOTE"
proof -
  let ?e1 = "stub_ai_env (Some (js ''  ERROR_NO_QUOTE ''))"
  let ?x1 = "\<lparr> provider = js ''ollama'' \<rparr>"
  let ?e2 = "stub_ai_env (Some (js '' `Life   is short.` ''))"
  let ?x2 = "\<lparr> provider = js ''openai'' \<rparr>"
  let ?q = "\<lparr> quote_text = js ''Life is short.'', quote_source = js ''openai'',
              extractedAt = js ''2025-01-01T09:00:00.000Z'' \<rparr>"
  have p1: "provider ?x1 \<in> set supported_providers"
    by (simp add: supported_providers_def js_def)
  have b1: "backend ?e1 (provider ?x1) (js ''body'') (js ''title'')
              = Returned (Some (js ''  ERROR_NO_QUOTE ''))"
    by (simp add: stub_ai_env_def)
  have c1: "cleanQuote (Some (js ''  ERROR_NO_QUOTE '')) = Some ERROR_NO_QUOTE"
    by code_simp
  have r1: "extractQuotes ?e1 ?x1 (js ''body'') (js ''title'') = Returned None"
    using extractQuotes_sentinel_absent
            [of ?x1 ?e1 "js ''body''" "js ''title''" "Some (js ''  ERROR_NO_QUOTE '')"]
          p1 b1 c1
    by simp
  have r2: "extractQuotes ?e2 ?x2 (js ''body'') (js ''title'') = Returned (Some [?q])"
    by code_simp
  have "quote_text ?q \<noteq> ERROR_NO_QUOTE"
    using extractQuotes_sentinel_absent
            [of ?x2 ?e2 "js ''body''" "js ''title''" "Some (js '' `Life   is short.` '')"] r2
    by simp
  with r1 r2 show ?thesis by simp
qed

section \<open>Properties of quote cleaning\<close>

lemma collapse_ws_Nil_iff [simp]: "collapse_ws s = [] \<longleftrightarrow> s = []"
  by (cases s) auto

lemma hd_collapse_ws: "s \<noteq> [] \<Longrightarrow> \<not> isWhiteSpace (hd s) \<Longrightarrow> hd (collapse_ws s) = hd s"
  by (cases s) auto

lemma single_spaced_collapse_ws: "single_spaced (collapse_ws s)"
proof (induction s rule: collapse_ws.induct)
  case 1
  show ?case by simp
next
  case (2 c cs)
  show ?case
  proof (cases "isWhiteSpace c")
    case True
    let ?d = "dropWhile isWhiteSpace cs"
    have "?d = [] \<or> \<not> isWhiteSpace (hd (collapse_ws ?d))"
    proof (cases "?d = []")
      case False
      then have "\<not> isWhiteSpace (hd ?d)" by (rule hd_dropWhile)
      with False show ?thesis by (simp add: hd_collapse_ws)
    qed simp
    with True 2 show ?thesis by auto
  next
    case False
    with 2 show ?thesis by simp
  qed
qed

lemma collapse_ws_fixed: "single_spaced t \<Longrightarrow> collapse_ws t = t"
proof (induction t)
  case Nil
  show ?case by simp
next
  case (Cons c cs)
  show ?case
  proof (cases "isWhiteSpace c")
    case True
    with Cons.prems have "c = SP" and "cs = [] \<or> \<not> isWhiteSpace (hd cs)" by auto
    then have "dropWhile isWhiteSpace cs = cs" by (cases cs) auto
    with True Cons \<open>c = SP\<close> show ?thesis by simp
  next
    case False
    with Cons show ?thesis by simp
  qed
qed

lemma single_spaced_append: "single_spaced (xs @ ys) \<Longrightarrow> single_spaced xs \<and> single_spaced ys"
proof (induction xs)
  case Nil then show ?case by simp
next
  case (Cons x xs)
  then show ?case by (cases xs) auto
qed

lemma single_spaced_trim: "single_spaced t \<Longrightarrow> single_spaced (trim t)"
proof -
  assume a: "single_spaced t"
  let ?u = "dropWhile isWhiteSpace t"
  have "single_spaced (takeWhile isWhiteSpace t @ ?u)" using a by simp
  then have u: "single_spaced ?u" by (blast dest: single_spaced_append)
  have "?u = rev (dropWhile isWhiteSpace (rev ?u)) @ rev (takeWhile isWhiteSpace (rev ?u))"
    by (metis rev_append rev_rev_ident takeWhile_dropWhile_id)
  with u have "single_spaced (rev (dropWhile isWhiteSpace (rev ?u)))"
    by (metis single_spaced_append)
  then show ?thesis by (simp add: trim_def)
qed

lemma trimmed_trim: "trimmed (trim s)"
proof -
  let ?u = "dropWhile isWhiteSpace s"
  let ?w = "dropWhile isWhiteSpace (rev ?u)"
  show ?thesis
  proof (cases "?w = []")
    case True
    then show ?thesis by (simp add: trimmed_def trim_def)
  next
    case False
    then have l: "\<not> isWhiteSpace (hd ?w)" by (rule hd_dropWhile)
    have une: "?u \<noteq> []"
    proof
      assume "?u = []"
      then have "?w = []" by (simp only: rev.simps(1) dropWhile.simps(1))
      with False show False by blast
    qed
    then have hu: "\<not> isWhiteSpace (hd ?u)" by (rule hd_dropWhile)
    have "?u = rev ?w @ rev (takeWhile isWhiteSpace (rev ?u))"
      by (metis rev_append rev_rev_ident takeWhile_dropWhile_id)
    with False have "hd ?u = hd (rev ?w)" by (metis hd_append2 rev_is_Nil_conv)
    with hu l False show ?thesis
      by (simp add: trimmed_def trim_def last_rev)
  qed
qed

lemma trim_fixed: "trimmed t \<Longrightarrow> trim t = t"
proof (cases "t = []")
  case True then show ?thesis by (simp add: trim_def)
next
  case False
  assume "trimmed t"
  with False have h: "\<not> isWhiteSpace (hd t)" and l: "\<not> isWhiteSpace (last t)"
    by (auto simp: trimmed_def)
  from False h have 1: "dropWhile isWhiteSpace t = t" by (cases t) auto
  from False l have 2: "dropWhile isWhiteSpace (rev t) = rev t"
    by (cases "rev t") (auto simp: last_rev hd_rev)
  show ?thesis by (simp add: trim_def 1 2)
qed

lemma length_trim: "length (trim s) \<le> length s"
  unfolding trim_def
  by (metis length_dropWhile_le length_rev order_trans)

lemma length_collapse_ws: "length (collapse_ws s) \<le> length s"
proof (induction s rule: collapse_ws.induct)
  case 1 show ?case by simp
next
  case (2 c cs)
  have "length (dropWhile isWhiteSpace cs) \<le> length cs" by (rule length_dropWhile_le)
  with 2 show ?case by (cases "isWhiteSpace c") auto
qed

lemma length_strip_leading_quote: "length (strip_leading_quote s) \<le> length s"
  by (auto simp: strip_leading_quote_def split: list.splits)
lemma length_strip_trailing_quote: "length (strip_trailing_quote s) \<le> length s"
  by (auto simp: strip_trailing_quote_def)
lemma length_strip_leading_dash: "length (strip_leading_dash s) \<le> length s"
  by (auto simp: strip_leading_dash_def split: list.splits)

lemma cleanQuote_normal:
  assumes "cleanQuote r = Some t"
  shows "single_spaced t" and "trimmed t"
  using assms
  by (auto simp: cleanQuote_def single_spaced_trim single_spaced_collapse_ws trimmed_trim
           split: option.splits if_splits)

lemma cleanQuote_fixed_iff:
  assumes n: "single_spaced t" "trimmed t"
  shows "cleanQuote (Some t) = Some t \<longleftrightarrow>
           t \<noteq> [] \<and> \<not> isQuoteChar (hd t) \<and> \<not> isQuoteChar (last t) \<and> take 2 t \<noteq> [0x2D, SP]"
proof (cases "t = []")
  case True
  then show ?thesis by (simp add: cleanQuote_def)
next
  case False
  note ne = False
  have tt: "trim t = t" using n by (simp add: trim_fixed)
  let ?a = "strip_leading_quote t"
  let ?b = "strip_trailing_quote ?a"
  let ?c = "strip_leading_dash ?b"
  have cq: "cleanQuote (Some t) = Some (trim (collapse_ws ?c))"
    using ne tt by (simp add: cleanQuote_def)
  have la: "length ?a \<le> length t" by (rule length_strip_leading_quote)
  have lb: "length ?b \<le> length ?a" by (rule length_strip_trailing_quote)
  have lc: "length ?c \<le> length ?b" by (rule length_strip_leading_dash)
  have lr: "length (trim (collapse_ws ?c)) \<le> length ?c"
    by (meson length_trim length_collapse_ws order_trans)
  show ?thesis
  proof (cases "isQuoteChar (hd t)")
    case True
    with ne have "length ?a < length t"
      by (cases t) (auto simp: strip_leading_quote_def)
    with lb lc lr have "length (trim (collapse_ws ?c)) < length t" by linarith
    then have "trim (collapse_ws ?c) \<noteq> t" by auto
    with cq True show ?thesis by simp
  next
    case hq: False
    with ne have a: "?a = t" by (cases t) (auto simp: strip_leading_quote_def)
    show ?thesis
    proof (cases "isQuoteChar (last t)")
      case True
      with ne a have "length ?b < length t" by (simp add: strip_trailing_quote_def)
      with lc lr have "length (trim (collapse_ws ?c)) < length t" by linarith
      then have "trim (collapse_ws ?c) \<noteq> t" by auto
      with cq True show ?thesis by simp
    next
      case lq: False
      with a have b: "?b = t" by (simp add: strip_trailing_quote_def)
      show ?thesis
      proof (cases "take 2 t = [0x2D, SP]")
        case True
        then obtain ds where "t = 0x2D # SP # ds"
          by (cases t; cases "tl t") auto
        then have "length (strip_leading_dash t) < length t"
          by (simp add: strip_leading_dash_def)
        with b lr have "length (trim (collapse_ws ?c)) < length t" by simp
        then have "trim (collapse_ws ?c) \<noteq> t" by auto
        with cq True show ?thesis by simp
      next
        case False
        then have "strip_leading_dash t = t"
          by (auto simp: strip_leading_dash_def split: list.splits)
        with b have "?c = t" by simp
        with n have "trim (collapse_ws ?c) = t"
          by (simp add: collapse_ws_fixed trim_fixed)
        with cq ne hq lq False show ?thesis by simp
      qed
    qed
  qed
qed


lemma cleanQuote_more_examples:
  "cleanQuote (cleanQuote (Some (js ''- - a''))) \<noteq> cleanQuote (Some (js ''- - a''))"
  "cleanQuote (Some (js ''  '')) = Some []"
  "cleanQuote (Some []) = None"
  by code_simp+

text \<open>
  C4. \<open>cleanQuote\<close> is not idempotent: one pass strips one quote character at each end and
  one leading \<open>- \<close>, so a doubly quoted answer loses one layer per pass.
\<close>

theorem cleanQuote_not_idempotent:
  "cleanQuote (cleanQuote (Some (js ''``a``''))) \<noteq> cleanQuote (Some (js ''``a``''))"
  by code_simp


text \<open>
  C4, as the code has it: cleaning an already cleaned quote gives the same value exactly
  when the cleaned quote is \<open>null\<close>, or is a non-empty string that neither begins nor ends
  with a quote character and does not begin with \<open>- \<close>.
\<close>

theorem cleanQuote_idempotent_iff:
  "cleanQuote (cleanQuote r) = cleanQuote r \<longleftrightarrow>
     (case cleanQuote r of
        None \<Rightarrow> True
      | Some t \<Rightarrow> t \<noteq> [] \<and> \<not> isQuoteChar (hd t) \<and> \<not> isQuoteChar (last t)
                  \<and> take 2 t \<noteq> js ''- '')"
proof (cases "cleanQuote r")
  case None
  then show ?thesis by (simp add: cleanQuote_def)
next
  case (Some t)
  have d: "js ''- '' = [0x2D, SP]" by (simp add: js_def SP_def)
  from Some have "single_spaced t" "trimmed t" by (rule cleanQuote_normal)+
  then show ?thesis using Some by (simp add: cleanQuote_fixed_iff d)
qed

theorem cleanQuote_idempotent_iff_witness:
  "cleanQuote (cleanQuote (Some (js '' `Life   is short.` ''))) =
     cleanQuote (Some (js '' `Life   is short.` ''))"
proof -
  have c: "cleanQuote (Some (js '' `Life   is short.` '')) = Some (js ''Life is short.'')"
    by code_simp
  have "js ''Life is short.'' \<noteq> [] \<and> \<not> isQuoteChar (hd (js ''Life is short.''))
          \<and> \<not> isQuoteChar (last (js ''Life is short.''))
          \<and> take 2 (js ''Life is short.'') \<noteq> js ''- ''"
    by code_simp
  with c show ?thesis
    using cleanQuote_idempotent_iff [of "Some (js '' `Life   is short.` '')"] by simp
qed



section \<open>Properties of content cleaning\<close>

lemma SP_neq_NL: "SP \<noteq> NL"
  by (simp add: SP_def NL_def)

lemma NL_notin_collapse_ws: "NL \<notin> set (collapse_ws s)"
  using SP_neq_NL by (induction s rule: collapse_ws.induct) auto

lemma collapse_blank_lines_no_NL: "NL \<notin> set s \<Longrightarrow> collapse_blank_lines s = s"
  by (induction s) auto

lemma set_trim_subset: "set (trim s) \<subseteq> set s"
  by (auto simp: trim_def dest!: set_dropWhileD)

lemma cleanContent_no_newline: "NL \<notin> set (cleanContent s)"
proof -
  have "NL \<notin> set (filter isPrintableOrNL (collapse_blank_lines (collapse_ws s)))"
    by (simp add: collapse_blank_lines_no_NL NL_notin_collapse_ws)
  then show ?thesis
    unfolding cleanContent_def using set_trim_subset by blast
qed

lemma cleanContent_printable:
  "c \<in> set (cleanContent s) \<Longrightarrow> 0x20 \<le> c \<and> c \<le> 0x7E"
proof -
  assume a: "c \<in> set (cleanContent s)"
  then have "c \<in> set (filter isPrintableOrNL (collapse_blank_lines (collapse_ws s)))"
    unfolding cleanContent_def using set_trim_subset by blast
  then have "isPrintableOrNL c" by simp
  moreover from a have "c \<noteq> NL" using cleanContent_no_newline by blast
  ultimately show ?thesis by (simp add: isPrintableOrNL_def)
qed


text \<open>
  C3. The first replacement of \<open>cleanContent\<close> turns every run of white space, line feeds
  included, into one space, so the second replacement finds no line feed and no paragraph
  break survives: three line feeds between two letters come out as one space, where the
  property asks for one blank line.
\<close>

theorem cleanContent_loses_paragraph_breaks:
  "cleanContent (js ''a'' @ [NL, NL, NL] @ js ''b'') = js ''a b''"
  by code_simp


section \<open>Properties of the interview reader\<close>

lemma extractSource_unparsable:
  "URL_hostname env u = None \<Longrightarrow> extractSource env u = js ''Unknown Source''"
  by (simp add: extractSource_def)

lemma replace_first_prefix: "replace_first pat rep (pat @ s) = rep @ s"
proof (cases "pat @ s")
  case Nil
  then show ?thesis by simp
next
  case (Cons a list)
  have "replace_first pat rep (a # list) =
          (if take (length pat) (a # list) = pat then rep @ drop (length pat) (a # list)
           else a # replace_first pat rep list)"
    by simp
  then show ?thesis unfolding Cons [symmetric] by simp
qed

lemma extractSource_leading_www:
  "URL_hostname env u = Some (js ''www.'' @ h) \<Longrightarrow> extractSource env u = h"
  by (simp add: extractSource_def replace_first_prefix)


text \<open>
  C9. \<open>extractSource\<close> removes the first occurrence of \<open>www.\<close> wherever it stands in the
  host name: the host \<open>mywww.example.com\<close> becomes \<open>myexample.com\<close>, where the property
  asks for the host name unchanged.
\<close>

theorem extractSource_removes_inner_www:
  "extractSource (stub_reader_env (Returned (Array [])) 0 (0, 0)) (js ''https://mywww.example.com/post'') = js ''myexample.com''"
  by code_simp

section \<open>Properties of loading\<close>

lemma collapse_ws_plain: "\<forall>c \<in> set s. \<not> isWhiteSpace c \<Longrightarrow> collapse_ws s = s"
  by (induction s) auto

lemma trim_plain: "\<forall>c \<in> set s. \<not> isWhiteSpace c \<Longrightarrow> trim s = s"
proof -
  assume a: "\<forall>c \<in> set s. \<not> isWhiteSpace c"
  then have "dropWhile isWhiteSpace s = s" by (cases s) auto
  moreover from a have "dropWhile isWhiteSpace (rev s) = rev s" by (cases "rev s") auto
  ultimately show ?thesis by (simp add: trim_def)
qed

lemma cleanContent_plain:
  assumes "\<forall>c \<in> set s. isPrintableOrNL c \<and> \<not> isWhiteSpace c"
  shows "cleanContent s = s"
proof -
  from assms have "NL \<notin> set s" by auto
  with assms show ?thesis
    by (simp add: cleanContent_def collapse_ws_plain collapse_blank_lines_no_NL trim_plain)
qed

lemma cleanContent_long_text: "cleanContent long_text = long_text"
  by (rule cleanContent_plain) (simp add: long_text_def isPrintableOrNL_def isWhiteSpace_def)

lemma long_text_facts: "long_text \<noteq> []" "length long_text = 150"
  by (simp_all add: long_text_def)

lemma cleanContent_short: "length (cleanContent (js ''too short'')) = 9"
  by code_simp

lemma stub_sources:
  "extractSource (stub_reader_env doc now x) (js ''https://x.test/i1'') = js ''x.test''"
  "extractSource (stub_reader_env doc now x) (js ''https://www.example.com/post'') = js ''example.com''"
  by code_simp+

lemma process_entries_demo:
  "process_entries (stub_reader_env doc now x) demo_entries = demo_loaded"
proof -
  have ne: "js ''https://x.test/i1'' \<noteq> []" "js ''https://x.test/i2'' \<noteq> []"
           "js ''https://www.example.com/post'' \<noteq> []" "js ''too short'' \<noteq> []"
    by (simp_all add: js_def)
  have f: "filter has_url_and_text demo_entries = tl demo_entries"
    by (simp add: demo_entries_def has_url_and_text_def truthy_def ne long_text_facts)
  have e: "enumerate 0 (tl demo_entries) = zip [0, 1, 2] (tl demo_entries)"
    by (simp add: demo_entries_def)
  have t: "extractTitle (stub_reader_env doc now x) = (\<lambda>t u. js ''Interview'')"
          "iso_time (stub_reader_env doc now x) = js ''2025-01-01T09:00:00.000Z''"
    by (simp_all add: stub_reader_env_def)
  show ?thesis
    unfolding process_entries_def f e
    by (simp add: demo_entries_def demo_loaded_def make_interview_def t stub_sources
          cleanContent_long_text cleanContent_short long_text_facts)
qed

lemma content_make_interview [simp]:
  "content (make_interview env (k, e)) = cleanContent (the (raw_text e))"
  "url (make_interview env (k, e)) = the (raw_url e)"
  by (simp_all add: make_interview_def)

lemma filter_map_enumerate:
  "map (\<lambda>i. (url i, content i))
     (filter (\<lambda>i. 100 < length (content i)) (map (make_interview env) (enumerate n xs))) =
   map (\<lambda>e. (the (raw_url e), cleanContent (the (raw_text e))))
     (filter (\<lambda>e. 100 < length (cleanContent (the (raw_text e)))) xs)"
  by (induction xs arbitrary: n) auto

lemma not_excluded_iff:
  "(\<not> excluded e) = (has_url_and_text e \<and> 100 < length (cleanContent (the (raw_text e))))"
  by (auto simp: excluded_def has_url_and_text_def)

lemma process_entries_kept:
  "map (\<lambda>i. (url i, content i)) (process_entries env data) =
   map (\<lambda>e. (the (raw_url e), cleanContent (the (raw_text e))))
     (filter (\<lambda>e. \<not> excluded e) data)"
proof -
  have "filter (\<lambda>e. 100 < length (cleanContent (the (raw_text e)))) (filter has_url_and_text data)
          = filter (\<lambda>e. \<not> excluded e) data"
    by (simp add: not_excluded_iff conj_commute)
  then show ?thesis
    by (simp add: process_entries_def filter_map_enumerate)
qed

lemma process_entries_count:
  "length (process_entries env data) = length data - length (filter excluded data)"
proof -
  have "length (process_entries env data) = length (filter (\<lambda>e. \<not> excluded e) data)"
    using arg_cong [OF process_entries_kept, of length env data] by simp
  moreover have "length (filter excluded data) + length (filter (\<lambda>e. \<not> excluded e) data)
                   = length data"
    by (rule sum_length_filter_compl)
  ultimately show ?thesis by simp
qed

lemma process_entries_long: "i \<in> set (process_entries env data) \<Longrightarrow> 100 < length (content i)"
  by (simp add: process_entries_def)

lemma missing_excluded: "raw_url e = None \<or> raw_text e = None \<Longrightarrow> excluded e"
  by (auto simp: excluded_def truthy_def)

lemma loadInterviews_Array:
  "readParsed env = Returned (Array data) \<Longrightarrow>
   loadInterviews env r =
     (Returned (process_entries env data),
      r\<lparr> file_reads := file_reads r + 1, interviews := Some (process_entries env data),
         lastLoadTime := Some (load_time env) \<rparr>)"
  by (simp add: loadInterviews_def Let_def)

text \<open>
  C5. When the file parses to an array, \<open>loadInterviews\<close> returns and stores the processed
  entries. Every element whose url or text is missing is excluded, and so is every element
  whose cleaned text has 100 code units or fewer; the collection holds exactly the other
  elements, in order. Every record of the collection has a cleaned text longer than 100, and
  the number of records is the number of elements minus the number of excluded ones. (A
  field that is present but empty counts as missing: the filter tests truthiness.)
\<close>

theorem loadInterviews_excludes:
  assumes "readParsed env = Returned (Array data)"
  shows "fst (loadInterviews env r) = Returned (process_entries env data) \<and>
         interviews (snd (loadInterviews env r)) = Some (process_entries env data) \<and>
         (\<forall>e \<in> set data. raw_url e = None \<or> raw_text e = None \<longrightarrow> excluded e) \<and>
         map (\<lambda>i. (url i, content i)) (process_entries env data) =
           map (\<lambda>e. (the (raw_url e), cleanContent (the (raw_text e))))
             (filter (\<lambda>e. \<not> excluded e) data) \<and>
         (\<forall>i \<in> set (process_entries env data). 100 < length (content i)) \<and>
         length (process_entries env data) = length data - length (filter excluded data)"
  using assms
  by (simp add: loadInterviews_Array process_entries_kept process_entries_count
        process_entries_long missing_excluded)

theorem loadInterviews_excludes_witness:
  "fst (loadInterviews (stub_reader_env (Returned (Array demo_entries)) 0 (0, 0)) fresh_reader) =
     Returned demo_loaded \<and>
   map id_num demo_loaded = [1, 3] \<and>
   length demo_entries = 4 \<and> length (filter excluded demo_entries) = 2"
proof -
  let ?env = "stub_reader_env (Returned (Array demo_entries)) 0 (0, 0)"
  have h: "readParsed ?env = Returned (Array demo_entries)"
    by (simp add: stub_reader_env_def)
  have a: "map id_num demo_loaded = [1, 3]" by (simp add: demo_loaded_def)
  have c: "length demo_entries = 4" by (simp add: demo_entries_def)
  have d: "length demo_loaded = 2" by (simp add: demo_loaded_def)
  note t = loadInterviews_excludes [OF h, of fresh_reader, unfolded process_entries_demo]
  from t have 1: "fst (loadInterviews ?env fresh_reader) = Returned demo_loaded" by blast
  from t have "length demo_loaded = length demo_entries - length (filter excluded demo_entries)"
    by blast
  with c d have "2 = 4 - length (filter excluded demo_entries)" by simp
  then have 2: "length (filter excluded demo_entries) = 2" by arith
  from 1 a c 2 show ?thesis by (intro conjI)
qed

section \<open>Properties of the statistics\<close>

lemma getStats_empty:
  "interviews r = Some [] \<Longrightarrow> getStats r = \<lparr> total_n = 0, averageLength = NaN, sources = Some [], lastLoaded = Some (last_load r) \<rparr>"
  by (simp add: getStats_def js_divide_def)

lemma getStats_nonempty_finite:
  "interviews r = Some xs \<Longrightarrow> xs \<noteq> [] \<Longrightarrow> isFinite (averageLength (getStats r))"
  by (simp add: getStats_def js_divide_def)

lemma getStats_zero_iff: "getStats r = zero_stats \<longleftrightarrow> interviews r = None"
  by (auto simp: getStats_def zero_stats_def Let_def split: option.splits)

text \<open>
  C10. On a collection that is loaded but empty, \<open>getStats\<close> divides 0 by 0: the total is 0
  and \<open>averageLength\<close> is \<open>NaN\<close>. The average is a finite number in every other case, and the
  zeroed summary \<open>{ total: 0, averageLength: 0 }\<close> is returned exactly when the collection
  is \<open>null\<close>, that is, was never loaded.
\<close>

theorem getStats_empty_collection_NaN:
  "(interviews r = Some [] \<longrightarrow>
      total_n (getStats r) = 0 \<and> averageLength (getStats r) = NaN) \<and>
   (isFinite (averageLength (getStats r)) \<longleftrightarrow> interviews r \<noteq> Some []) \<and>
   (getStats r = zero_stats \<longleftrightarrow> interviews r = None)"
proof -
  have "isFinite (averageLength (getStats r)) \<longleftrightarrow> interviews r \<noteq> Some []"
  proof (cases "interviews r")
    case None
    then show ?thesis by (simp add: getStats_def zero_stats_def)
  next
    case (Some xs)
    then show ?thesis
      by (cases "xs = []") (simp_all add: getStats_empty getStats_nonempty_finite)
  qed
  then show ?thesis by (simp add: getStats_empty getStats_zero_iff)
qed

theorem getStats_empty_collection_NaN_witness:
  "interviews (snd (loadInterviews (stub_reader_env (Returned (Array [])) 0 (0, 0)) fresh_reader)) = Some [] \<and>
   averageLength (getStats (snd (loadInterviews (stub_reader_env (Returned (Array [])) 0 (0, 0)) fresh_reader))) = NaN \<and>
   getStats fresh_reader = zero_stats"
proof -
  let ?r = "snd (loadInterviews (stub_reader_env (Returned (Array [])) 0 (0, 0)) fresh_reader)"
  have a: "interviews ?r = Some []" by code_simp
  have b: "interviews fresh_reader = None" by (simp add: fresh_reader_def)
  from getStats_empty_collection_NaN [of ?r] a
  have "averageLength (getStats ?r) = NaN" by simp
  moreover from getStats_empty_collection_NaN [of fresh_reader] b
  have "getStats fresh_reader = zero_stats" by simp
  ultimately show ?thesis using a by simp
qed


section \<open>Properties of the random choice\<close>

subsection \<open>The rounded product\<close>

lemma two53_pos: "0 < two53"
  by (simp add: two53_def)

lemma two53_power: "2 ^ d * two53 = 2 ^ (d + 53)"
  unfolding two53_def by (rule power_add [symmetric])

lemma two53_le: "e \<le> 53 \<Longrightarrow> 2 ^ e \<le> two53"
  unfolding two53_def by (intro power_increasing) simp_all

lemma two53_ge: "53 \<le> e \<Longrightarrow> two53 \<le> 2 ^ e"
  unfolding two53_def by (intro power_increasing) simp_all

lemma round53_small: "floorlog 2 N \<le> 53 \<Longrightarrow> round53 N = N"
  by (simp add: round53_def)

lemma round53_cases:
  "round53 N = (N div 2 ^ (floorlog 2 N - 53)) * 2 ^ (floorlog 2 N - 53) \<or>
   round53 N = (N div 2 ^ (floorlog 2 N - 53) + 1) * 2 ^ (floorlog 2 N - 53) \<and>
     2 ^ (floorlog 2 N - 53) \<le> 2 * (N mod 2 ^ (floorlog 2 N - 53))"
  by (auto simp: round53_def Let_def)

lemma round53_upper: "round53 N * two53 \<le> N * two53 + N"
proof (cases "floorlog 2 N \<le> 53")
  case True
  then show ?thesis by (simp add: round53_small)
next
  case False
  define d where "d = floorlog 2 N - 53"
  define q where "q = N div 2 ^ d"
  define r where "r = N mod 2 ^ d"
  from False have L: "floorlog 2 N = d + 53" by (simp add: d_def)
  from False have "0 < N" by (auto simp: floorlog_def split: if_splits)
  from floorlog_bounds [OF this, of 2] have "(2::nat) ^ (d + 53 - 1) \<le> N" by (simp add: L)
  then have "2 * (2::nat) ^ (d + 53 - 1) \<le> 2 * N" by simp
  moreover have "2 * (2::nat) ^ (d + 53 - 1) = 2 ^ (d + 53)"
    by (simp add: power_Suc [symmetric] del: power_Suc)
  ultimately have big: "2 ^ d * two53 \<le> 2 * N" by (simp add: two53_power)
  have N: "N = q * 2 ^ d + r" by (simp only: q_def r_def div_mult_mod_eq)
  from round53_cases [of N]
  consider "round53 N = q * 2 ^ d" | "round53 N = (q + 1) * 2 ^ d" "2 ^ d \<le> 2 * r"
    unfolding d_def [symmetric] q_def [symmetric] r_def [symmetric] by blast
  then show ?thesis
  proof cases
    case 1
    then have "round53 N \<le> N" by (simp add: N)
    then have "round53 N * two53 \<le> N * two53" by (rule mult_le_mono1)
    then show ?thesis by (rule trans_le_add1)
  next
    case 2
    have "2 * round53 N = 2 * (q * 2 ^ d) + 2 ^ d + 2 ^ d" by (simp add: 2 algebra_simps)
    also have "\<dots> \<le> 2 * (q * 2 ^ d) + 2 ^ d + 2 * r" using 2(2) by simp
    also have "\<dots> = 2 * N + 2 ^ d" by (simp add: N)
    finally have "2 * round53 N \<le> 2 * N + 2 ^ d" .
    then have "2 * round53 N * two53 \<le> (2 * N + 2 ^ d) * two53"
      by (rule mult_le_mono1)
    also have "\<dots> = 2 * (N * two53) + 2 ^ d * two53" by (simp add: algebra_simps)
    also have "\<dots> \<le> 2 * (N * two53) + 2 * N" using big by simp
    finally show ?thesis by simp
  qed
qed

lemma unit_double_below_one:
  assumes "is_unit_double (s, e)"
  shows "s * two53 + 2 ^ e \<le> 2 ^ e * two53"
proof (cases "e \<le> 53")
  case True
  from assms have "s + 1 \<le> 2 ^ e" by (simp add: is_unit_double_def)
  then have "(s + 1) * two53 \<le> 2 ^ e * two53" by (rule mult_le_mono1)
  with two53_le [OF True] show ?thesis by (simp add: algebra_simps)
next
  case False
  then have g: "two53 \<le> 2 ^ e" by (intro two53_ge) simp
  from assms have "s + 1 \<le> two53" by (simp add: is_unit_double_def)
  then have "(s + 1) * 2 ^ e \<le> two53 * 2 ^ e" by (rule mult_le_mono1)
  then have "s * 2 ^ e + 2 ^ e \<le> 2 ^ e * two53" by (simp add: algebra_simps)
  moreover from g have "s * two53 \<le> s * 2 ^ e" by (rule mult_le_mono2)
  ultimately show ?thesis by linarith
qed

lemma random_index_in_range:
  assumes "is_unit_double x" and "0 < n"
  shows "random_index x n < n"
proof -
  obtain s e where x: "x = (s, e)" by (cases x)
  define N where "N = s * n"
  define R where "R = round53 N"
  define T where "T = n * 2 ^ e"
  have a: "R * two53 \<le> N * two53 + N" unfolding R_def by (rule round53_upper)
  from unit_double_below_one [OF assms(1) [unfolded x]]
  have "(s * two53 + 2 ^ e) * n \<le> (2 ^ e * two53) * n" by (rule mult_le_mono1)
  then have b: "N * two53 + T \<le> T * two53" by (simp add: N_def T_def algebra_simps)
  have Tpos: "0 < T" using assms(2) by (simp add: T_def)
  have "R < T"
  proof (rule ccontr)
    assume "\<not> R < T"
    then have "T \<le> R" by simp
    then have "T * two53 \<le> R * two53" by (rule mult_le_mono1)
    with a b have "T \<le> N" by linarith
    then have "T * two53 \<le> N * two53" by (rule mult_le_mono1)
    with b Tpos show False by linarith
  qed
  then have "R div 2 ^ e < n" by (simp add: T_def less_mult_imp_div_less)
  then show ?thesis by (simp add: random_index_def x R_def N_def)
qed


lemma round53_between:
  "(N div 2 ^ (floorlog 2 N - 53)) * 2 ^ (floorlog 2 N - 53) \<le> round53 N \<and>
   round53 N \<le> (N div 2 ^ (floorlog 2 N - 53) + 1) * 2 ^ (floorlog 2 N - 53)"
  using round53_cases [of N] by auto

lemma exact_index_floor:
  "int (exact_index x n) = \<lfloor>random_value x * real n\<rfloor>"
proof -
  obtain s e where x: "x = (s, e)" by (cases x)
  have "random_value (s, e) * real n = real (s * n) / real (2 ^ e)"
    by (simp add: random_value_def)
  then show ?thesis
    by (simp only: x exact_index_def prod.case floor_divide_of_nat_eq)
qed

lemma random_index_near_exact:
  assumes "is_unit_double x" and "n < two53"
  shows "exact_index x n \<le> random_index x n \<and> random_index x n \<le> exact_index x n + 1"
proof -
  obtain s e where x: "x = (s, e)" by (cases x)
  define N where "N = s * n"
  define d where "d = floorlog 2 N - 53"
  define q where "q = N div 2 ^ d"
  define E where "E = N div 2 ^ e"
  from assms(1) have se: "s < 2 ^ e" by (simp add: x is_unit_double_def)
  have "N < 2 ^ e * two53"
  proof (cases "n = 0")
    case True then show ?thesis by (simp add: N_def two53_pos)
  next
    case False
    then have "s * n < 2 ^ e * n" using se by simp
    also have "\<dots> < 2 ^ e * two53" using assms(2) by simp
    finally show ?thesis by (simp add: N_def)
  qed
  then have "N < 2 ^ (e + 53)" by (simp add: two53_power)
  then have "floorlog 2 N \<le> e + 53" by (intro floorlog_leI) simp_all
  then have de: "d \<le> e" by (simp add: d_def)
  then have U: "(2::nat) ^ e = 2 ^ (e - d) * 2 ^ d"
    by (simp add: power_add [symmetric])
  from round53_between [of N]
  have lo: "q * 2 ^ d \<le> round53 N" and hi: "round53 N \<le> (q + 1) * 2 ^ d"
    by (simp_all add: d_def q_def)
  have "E * 2 ^ e \<le> N" by (simp add: E_def)
  then have "(E * 2 ^ (e - d)) * 2 ^ d \<le> N" by (simp add: U mult.assoc)
  then have "E * 2 ^ (e - d) \<le> q" by (simp add: q_def less_eq_div_iff_mult_less_eq)
  then have "(E * 2 ^ (e - d)) * 2 ^ d \<le> q * 2 ^ d" by (rule mult_le_mono1)
  then have "(E * 2 ^ (e - d)) * 2 ^ d \<le> round53 N" using lo by (rule order_trans)
  then have "E * 2 ^ e \<le> round53 N" by (simp only: U mult.assoc)
  then have 1: "E \<le> round53 N div 2 ^ e" by (simp add: less_eq_div_iff_mult_less_eq)
  have "N < (E + 1) * 2 ^ e"
    unfolding E_def using div_less_iff_less_mult [of "2 ^ e" N "N div 2 ^ e + 1"] by simp
  then have "N < ((E + 1) * 2 ^ (e - d)) * 2 ^ d" by (simp only: U mult.assoc)
  then have "q < (E + 1) * 2 ^ (e - d)" by (simp add: q_def div_less_iff_less_mult)
  then have "q + 1 \<le> (E + 1) * 2 ^ (e - d)" by simp
  then have "(q + 1) * 2 ^ d \<le> ((E + 1) * 2 ^ (e - d)) * 2 ^ d" by (rule mult_le_mono1)
  with hi have "round53 N \<le> ((E + 1) * 2 ^ (e - d)) * 2 ^ d" by (rule order_trans)
  then have "round53 N \<le> (E + 1) * 2 ^ e" by (simp only: U mult.assoc)
  then have "round53 N div 2 ^ e \<le> ((E + 1) * 2 ^ e) div 2 ^ e" by (rule div_le_mono)
  then have 2: "round53 N div 2 ^ e \<le> E + 1" by simp
  from 1 2 show ?thesis by (simp add: random_index_def exact_index_def x N_def E_def)
qed

lemma random_index_relative:
  "real (random_index x n) \<le> random_value x * real n * (1 + 1 / real two53)"
proof -
  obtain s e where x: "x = (s, e)" by (cases x)
  define N where "N = s * n"
  define R where "R = round53 N"
  have "(R div 2 ^ e) * 2 ^ e \<le> R" by simp
  then have "(R div 2 ^ e) * 2 ^ e * two53 \<le> R * two53" by (rule mult_le_mono1)
  also have "\<dots> \<le> N * two53 + N" unfolding R_def by (rule round53_upper)
  finally have "real ((R div 2 ^ e) * 2 ^ e * two53) \<le> real (N * two53 + N)"
    by (simp only: of_nat_le_iff)
  then have "real (R div 2 ^ e) * (2 ^ e * real two53) \<le> real N * (real two53 + 1)"
    by (simp add: algebra_simps)
  moreover have p: "0 < 2 ^ e * real two53" using two53_pos by simp
  ultimately have "real (R div 2 ^ e) \<le> real N * (real two53 + 1) / (2 ^ e * real two53)"
    by (simp add: pos_le_divide_eq)
  also have "\<dots> = (real s / 2 ^ e) * real n * (1 + 1 / real two53)"
    using two53_pos by (simp add: N_def field_simps)
  finally show ?thesis by (simp add: random_index_def random_value_def x R_def N_def)
qed


text \<open>
  The product is rounded: seven times \<open>2573485501354569 / 2 ^ 52\<close> is a little below 4,
  and its binary64 value is 4.
\<close>

lemma floorlog_2_eq: "2 ^ (L - 1) \<le> N \<Longrightarrow> N < 2 ^ L \<Longrightarrow> floorlog 2 N = L"
  by (intro antisym floorlog_leI floorlog_geI) simp_all

lemma random_index_rounds_up: "random_index (2573485501354569, 52) 7 = 4"
proof -
  have "floorlog 2 (2573485501354569 * 7) = 54"
    by (rule floorlog_2_eq) simp_all
  then show ?thesis
    by (simp add: random_index_def round53_def)
qed

lemma exact_index_below: "exact_index (2573485501354569, 52) 7 = 3"
  by (simp add: exact_index_def)

lemma random_index_half: "random_index (2, 2) 2 = 1"
proof -
  have "floorlog 2 (2 * 2) = 3" by (rule floorlog_2_eq) simp_all
  then show ?thesis by (simp add: random_index_def round53_def)
qed


lemma random_index_zero: "random_index (0, 0) n = 0"
  by (simp add: random_index_def round53_def floorlog_def)

subsection \<open>Loading before the choice\<close>

lemma getRandomInterview_fresh:
  assumes "is_unit_double (Math_random env)"
      and "\<not> needs_load env r" "interviews r = Some xs"
  shows "getRandomInterview env r =
           (if xs = [] then Threw NoInterviewsAvailable
            else Returned (xs ! random_index (Math_random env) (length xs)), r)"
proof (cases "xs = []")
  case True
  with assms show ?thesis by (simp add: getRandomInterview_def)
next
  case False
  then have "0 < length xs" by simp
  from random_index_in_range [OF assms(1) this] assms(2,3) False
  show ?thesis by (simp add: getRandomInterview_def Let_def)
qed

lemma loadInterviews_cases:
  "(\<exists>e. loadInterviews env r = (Threw e, r\<lparr> file_reads := file_reads r + 1 \<rparr>)) \<or>
   (\<exists>xs. loadInterviews env r =
      (Returned xs, r\<lparr> file_reads := file_reads r + 1, interviews := Some xs,
                       lastLoadTime := Some (load_time env) \<rparr>))"
  by (auto simp: loadInterviews_def Let_def split: outcome.splits json_doc.splits)

lemma getRandomInterview_reload:
  assumes "is_unit_double (Math_random env)"
      and "needs_load env r"
  shows "getRandomInterview env r =
           (case loadInterviews env r of
              (Threw e, r1) \<Rightarrow> (Threw e, r1)
            | (Returned xs, r1) \<Rightarrow>
                (if xs = [] then Threw NoInterviewsAvailable
                 else Returned (xs ! random_index (Math_random env) (length xs)), r1))"
proof -
  from loadInterviews_cases [of env r] show ?thesis
  proof (elim disjE exE)
    fix e assume "loadInterviews env r = (Threw e, r\<lparr> file_reads := file_reads r + 1 \<rparr>)"
    with assms(2) show ?thesis by (simp add: getRandomInterview_def)
  next
    fix xs
    assume l: "loadInterviews env r =
      (Returned xs, r\<lparr> file_reads := file_reads r + 1, interviews := Some xs,
                       lastLoadTime := Some (load_time env) \<rparr>)"
    show ?thesis
    proof (cases "xs = []")
      case True
      with l assms(2) show ?thesis by (simp add: getRandomInterview_def)
    next
      case False
      then have "0 < length xs" by simp
      from random_index_in_range [OF assms(1) this] l assms(2) False
      show ?thesis by (simp add: getRandomInterview_def Let_def)
    qed
  qed
qed

lemma file_reads_loadInterviews:
  "file_reads (snd (loadInterviews env r)) = file_reads r + 1"
  using loadInterviews_cases [of env r] by auto

text \<open>
  C6. \<open>Math.random()\<close> returns a binary64 number from 0 (included) to 1 (excluded).
  When the collection is \<open>null\<close> or was loaded more than 300000 ms before the call,
  \<open>getRandomInterview\<close> first loads (the file is read once more; an error of the load is
  passed on), and then answers from the loaded collection; otherwise it answers from the
  cached collection and leaves the reader as it is. The answer is the error "no interviews
  available" on an empty collection, and otherwise the record at the index
  \<open>Math.floor(Math.random() * length)\<close>, computed with the rounded binary64 product. That
  index is within the collection. It is the integer part of the exact product
  \<open>random * length\<close> or, when the product is rounded up to an integer, one more; it is
  never above the exact product by more than one part in \<open>2 ^ 53\<close>. So record \<open>i\<close> is
  chosen for the random numbers from \<open>i / length\<close> to \<open>(i + 1) / length\<close>, but for rounding
  at the ends of that interval: every record has an interval of the same width.
\<close>

theorem getRandomInterview_reloads_then_picks:
  assumes "is_unit_double (Math_random env)"
  shows "(interviews r = None \<or> 300000 < check_time env - last_load r \<longrightarrow>
            getRandomInterview env r =
              (case loadInterviews env r of
                 (Threw e, r1) \<Rightarrow> (Threw e, r1)
               | (Returned xs, r1) \<Rightarrow>
                   (if xs = [] then Threw NoInterviewsAvailable
                    else Returned (xs ! random_index (Math_random env) (length xs)), r1)) \<and>
            file_reads (snd (getRandomInterview env r)) = file_reads r + 1) \<and>
         (interviews r = Some xs \<and> check_time env - last_load r \<le> 300000 \<longrightarrow>
            getRandomInterview env r =
              (if xs = [] then Threw NoInterviewsAvailable
               else Returned (xs ! random_index (Math_random env) (length xs)), r)) \<and>
         (ys \<noteq> [] \<longrightarrow> random_index (Math_random env) (length ys) < length ys) \<and>
         (length ys < two53 \<longrightarrow>
            int (exact_index (Math_random env) (length ys)) =
              \<lfloor>random_value (Math_random env) * real (length ys)\<rfloor> \<and>
            exact_index (Math_random env) (length ys) \<le> random_index (Math_random env) (length ys) \<and>
            random_index (Math_random env) (length ys) \<le> exact_index (Math_random env) (length ys) + 1 \<and>
            real (random_index (Math_random env) (length ys)) \<le>
              random_value (Math_random env) * real (length ys) * (1 + 1 / real two53))"
proof (intro conjI impI)
  assume "interviews r = None \<or> 300000 < check_time env - last_load r"
  then have n: "needs_load env r" by (simp add: needs_load_def)
  from getRandomInterview_reload [OF assms n]
  show g: "getRandomInterview env r =
              (case loadInterviews env r of
                 (Threw e, r1) \<Rightarrow> (Threw e, r1)
               | (Returned xs, r1) \<Rightarrow>
                   (if xs = [] then Threw NoInterviewsAvailable
                    else Returned (xs ! random_index (Math_random env) (length xs)), r1))" .
  have "snd (getRandomInterview env r) = snd (loadInterviews env r)"
    unfolding g by (auto split: prod.splits outcome.splits)
  then show "file_reads (snd (getRandomInterview env r)) = file_reads r + 1"
    by (simp add: file_reads_loadInterviews)
next
  assume a: "interviews r = Some xs \<and> check_time env - last_load r \<le> 300000"
  then have "\<not> needs_load env r" by (simp add: needs_load_def)
  with a getRandomInterview_fresh [OF assms, of r xs]
  show "getRandomInterview env r =
          (if xs = [] then Threw NoInterviewsAvailable
           else Returned (xs ! random_index (Math_random env) (length xs)), r)"
    by simp
next
  assume "ys \<noteq> []"
  then have "0 < length ys" by simp
  with assms show "random_index (Math_random env) (length ys) < length ys"
    by (rule random_index_in_range)
next
  show "int (exact_index (Math_random env) (length ys)) =
          \<lfloor>random_value (Math_random env) * real (length ys)\<rfloor>"
    by (rule exact_index_floor)
next
  assume b: "length ys < two53"
  from random_index_near_exact [OF assms b]
  show "exact_index (Math_random env) (length ys) \<le> random_index (Math_random env) (length ys)"
    by blast
next
  assume b: "length ys < two53"
  from random_index_near_exact [OF assms b]
  show "random_index (Math_random env) (length ys) \<le> exact_index (Math_random env) (length ys) + 1"
    by blast
next
  show "real (random_index (Math_random env) (length ys)) \<le>
          random_value (Math_random env) * real (length ys) * (1 + 1 / real two53)"
    by (rule random_index_relative)
qed

theorem getRandomInterview_reloads_then_picks_witness:
  "getRandomInterview (stub_reader_env (Returned (Array demo_entries)) 1000 (2, 2)) fresh_reader
     = (Returned (demo_loaded ! 1),
        \<lparr> interviews = Some demo_loaded, lastLoadTime = Some 1000, file_reads = 1 \<rparr>) \<and>
   getRandomInterview (stub_reader_env (Returned (Array demo_entries)) 2000 (2, 2))
      \<lparr> interviews = Some demo_loaded, lastLoadTime = Some 1000, file_reads = 1 \<rparr>
     = (Returned (demo_loaded ! 1),
        \<lparr> interviews = Some demo_loaded, lastLoadTime = Some 1000, file_reads = 1 \<rparr>) \<and>
   getRandomInterview (stub_reader_env (Returned (Array [])) 400000 (2, 2))
      \<lparr> interviews = Some demo_loaded, lastLoadTime = Some 1000, file_reads = 1 \<rparr>
     = (Threw NoInterviewsAvailable,
        \<lparr> interviews = Some [], lastLoadTime = Some 400000, file_reads = 2 \<rparr>) \<and>
   random_index (2573485501354569, 52) (length (replicate 7 demo_quote)) < 7"
proof -
  let ?env = "stub_reader_env (Returned (Array demo_entries)) 1000 (2, 2)"
  let ?env2 = "stub_reader_env (Returned (Array demo_entries)) 2000 (2, 2)"
  let ?env3 = "stub_reader_env (Returned (Array [])) 400000 (2, 2)"
  let ?env4 = "stub_reader_env (Returned (Array [])) 0 (2573485501354569, 52)"
  let ?r1 = "\<lparr> interviews = Some demo_loaded, lastLoadTime = Some 1000, file_reads = 1 \<rparr>"
  have r: "is_unit_double (Math_random ?env)" "is_unit_double (Math_random ?env2)"
          "is_unit_double (Math_random ?env3)" "is_unit_double (Math_random ?env4)"
    by (simp_all add: stub_reader_env_def is_unit_double_def two53_def)
  have h: "readParsed ?env = Returned (Array demo_entries)"
          "readParsed ?env3 = Returned (Array [])"
          "load_time ?env = 1000" "load_time ?env3 = 400000"
    by (simp_all add: stub_reader_env_def)
  have len: "length demo_loaded = 2" "demo_loaded \<noteq> []"
    by (simp_all add: demo_loaded_def)
  have i: "random_index (Math_random ?env) 2 = 1"
          "random_index (Math_random ?env2) 2 = 1"
    by (simp_all add: stub_reader_env_def random_index_half)
  have 1: "getRandomInterview ?env fresh_reader = (Returned (demo_loaded ! 1), ?r1)"
    using conjunct1 [OF getRandomInterview_reloads_then_picks
                          [OF r(1), of fresh_reader "[]" "[]"]]
    by (simp add: loadInterviews_Array [OF h(1)] process_entries_demo h len i fresh_reader_def)
  have c: "interviews ?r1 = Some demo_loaded \<and> check_time ?env2 - last_load ?r1 \<le> 300000"
    by (simp add: stub_reader_env_def last_load_def)
  have 2: "getRandomInterview ?env2 ?r1 = (Returned (demo_loaded ! 1), ?r1)"
    using conjunct1 [OF conjunct2 [OF getRandomInterview_reloads_then_picks
                                        [OF r(2), of ?r1 demo_loaded "[]"]]] c
    by (simp add: len i)
  have s: "interviews ?r1 = None \<or> 300000 < check_time ?env3 - last_load ?r1"
    by (simp add: stub_reader_env_def last_load_def)
  have 3: "getRandomInterview ?env3 ?r1 =
             (Threw NoInterviewsAvailable,
              \<lparr> interviews = Some [], lastLoadTime = Some 400000, file_reads = 2 \<rparr>)"
    using conjunct1 [OF getRandomInterview_reloads_then_picks
                          [OF r(3), of ?r1 "[]" "[]"]] s
    by (simp add: loadInterviews_Array [OF h(2)] process_entries_def h)
  have m: "Math_random ?env4 = (2573485501354569, 52)" by (simp add: stub_reader_env_def)
  have 4: "random_index (2573485501354569, 52) (length (replicate 7 demo_quote)) < 7"
    using conjunct1 [OF conjunct2 [OF conjunct2 [OF getRandomInterview_reloads_then_picks
                          [OF r(4), of fresh_reader "[]" "replicate 7 demo_quote"]]]]
    by (simp add: m)
  from 1 2 3 4 show ?thesis by (intro conjI)
qed

section \<open>Properties of the email sender\<close>

lemma init_cases:
  "init env s =
     (if \<not> isConfigured s then (Threw EmailConfigIncomplete, s)
      else (case verify env of Some e \<Rightarrow> Threw e | None \<Rightarrow> Returned (),
            s\<lparr> transporter := True, smtp_calls := smtp_calls s @ [Verify] \<rparr>))"
  by (simp add: init_def Let_def split: option.splits)

text \<open>
  C2. The test for an empty recipient list does not come first: on a sender whose transport
  does not exist yet, \<open>sendQuoteEmail\<close> calls \<open>init\<close> before it. With a server that answers
  the liveness check, the error "no recipients" is thrown after that network call; with a
  server that does not, the error of the liveness check is thrown instead.
\<close>

theorem send_empty_recipients_after_network_call:
  "sendQuoteEmail (stub_mail_env None) fresh_sender [] (js ''s'') (js ''t'') (js ''h'') =
     (Threw NoRecipients,
      \<lparr> isConfigured = True, transporter = True, smtp_calls = [Verify], delivered = [] \<rparr>) \<and>
   sendQuoteEmail (stub_mail_env (Some (External (js ''ECONNREFUSED'')))) fresh_sender []
       (js ''s'') (js ''t'') (js ''h'') =
     (Threw (External (js ''ECONNREFUSED'')),
      \<lparr> isConfigured = True, transporter = True, smtp_calls = [Verify], delivered = [] \<rparr>)"
  by (simp add: sendQuoteEmail_def init_cases stub_mail_env_def fresh_sender_def)


text \<open>
  C2, as the code has it, for \<open>sendQuoteEmail\<close> and \<open>sendQuote\<close> alike, called with an
  empty recipient list. When the transport exists already, the call throws "no recipients"
  and changes nothing: no network call is made. When it does not, \<open>init\<close> runs first: with
  a complete configuration the liveness check is made, and the call throws "no recipients"
  if the check succeeds and the error of the check if it fails; with an incomplete
  configuration the call throws "configuration incomplete" with no network call. In no case
  is a message submitted.
\<close>

theorem send_empty_recipients:
  "(transporter s \<longrightarrow>
      sendQuoteEmail env s [] subj txt html = (Threw NoRecipients, s) \<and>
      sendQuote env ec s [] = (Threw NoRecipients, s)) \<and>
   (\<not> transporter s \<and> isConfigured s \<and> verify env = None \<longrightarrow>
      sendQuoteEmail env s [] subj txt html =
        (Threw NoRecipients, s\<lparr> transporter := True, smtp_calls := smtp_calls s @ [Verify] \<rparr>) \<and>
      sendQuote env ec s [] =
        (Threw NoRecipients, s\<lparr> transporter := True, smtp_calls := smtp_calls s @ [Verify] \<rparr>)) \<and>
   (\<not> transporter s \<and> isConfigured s \<and> verify env = Some e \<longrightarrow>
      sendQuoteEmail env s [] subj txt html =
        (Threw e, s\<lparr> transporter := True, smtp_calls := smtp_calls s @ [Verify] \<rparr>) \<and>
      sendQuote env ec s [] =
        (Threw e, s\<lparr> transporter := True, smtp_calls := smtp_calls s @ [Verify] \<rparr>)) \<and>
   (\<not> transporter s \<and> \<not> isConfigured s \<longrightarrow>
      sendQuoteEmail env s [] subj txt html = (Threw EmailConfigIncomplete, s) \<and>
      sendQuote env ec s [] = (Threw EmailConfigIncomplete, s)) \<and>
   delivered (snd (sendQuoteEmail env s [] subj txt html)) = delivered s \<and>
   delivered (snd (sendQuote env ec s [])) = delivered s"
  by (cases "verify env")
     (simp_all add: sendQuoteEmail_def sendQuote_def init_cases)

theorem send_empty_recipients_witness:
  "sendQuoteEmail (stub_mail_env None)
      \<lparr> isConfigured = True, transporter = True, smtp_calls = [Verify], delivered = [] \<rparr>
      [] (js ''s'') (js ''t'') (js ''h'') =
     (Threw NoRecipients,
      \<lparr> isConfigured = True, transporter = True, smtp_calls = [Verify], delivered = [] \<rparr>) \<and>
   sendQuoteEmail (stub_mail_env None) fresh_sender [] (js ''s'') (js ''t'') (js ''h'') =
     (Threw NoRecipients, fresh_sender\<lparr> transporter := True, smtp_calls := [Verify] \<rparr>) \<and>
   sendQuoteEmail (stub_mail_env (Some (External (js ''ECONNREFUSED'')))) fresh_sender []
       (js ''s'') (js ''t'') (js ''h'') =
     (Threw (External (js ''ECONNREFUSED'')),
      fresh_sender\<lparr> transporter := True, smtp_calls := [Verify] \<rparr>) \<and>
   sendQuoteEmail (stub_mail_env None) (fresh_sender\<lparr> isConfigured := False \<rparr>) []
       (js ''s'') (js ''t'') (js ''h'') =
     (Threw EmailConfigIncomplete, fresh_sender\<lparr> isConfigured := False \<rparr>)"
proof -
  let ?s1 = "\<lparr> isConfigured = True, transporter = True, smtp_calls = [Verify], delivered = [] \<rparr>"
  let ?bad = "External (js ''ECONNREFUSED'')"
  let ?off = "fresh_sender\<lparr> isConfigured := False \<rparr>"
  note t = send_empty_recipients
  have a: "transporter ?s1" by simp
  have b: "\<not> transporter fresh_sender \<and> isConfigured fresh_sender \<and> verify (stub_mail_env None) = None"
    by (simp add: fresh_sender_def stub_mail_env_def)
  have c: "\<not> transporter fresh_sender \<and> isConfigured fresh_sender \<and>
           verify (stub_mail_env (Some ?bad)) = Some ?bad"
    by (simp add: fresh_sender_def stub_mail_env_def)
  have d: "\<not> transporter ?off \<and> \<not> isConfigured ?off"
    by (simp add: fresh_sender_def)
  have e: "smtp_calls fresh_sender = []" by (simp add: fresh_sender_def)
  from a t [of ?s1 "stub_mail_env None" "js ''s''" "js ''t''" "js ''h''"]
  have 1: "sendQuoteEmail (stub_mail_env None) ?s1 [] (js ''s'') (js ''t'') (js ''h'')
             = (Threw NoRecipients, ?s1)" by blast
  from b t [of fresh_sender "stub_mail_env None" "js ''s''" "js ''t''" "js ''h''"]
  have 2: "sendQuoteEmail (stub_mail_env None) fresh_sender [] (js ''s'') (js ''t'') (js ''h'')
             = (Threw NoRecipients,
                fresh_sender\<lparr> transporter := True, smtp_calls := smtp_calls fresh_sender @ [Verify] \<rparr>)"
    by blast
  from c t [of fresh_sender "stub_mail_env (Some ?bad)" "js ''s''" "js ''t''" "js ''h''" _ ?bad]
  have 3: "sendQuoteEmail (stub_mail_env (Some ?bad)) fresh_sender [] (js ''s'') (js ''t'') (js ''h'')
             = (Threw ?bad,
                fresh_sender\<lparr> transporter := True, smtp_calls := smtp_calls fresh_sender @ [Verify] \<rparr>)"
    by blast
  from d t [of ?off "stub_mail_env None" "js ''s''" "js ''t''" "js ''h''"]
  have 4: "sendQuoteEmail (stub_mail_env None) ?off [] (js ''s'') (js ''t'') (js ''h'')
             = (Threw EmailConfigIncomplete, ?off)"
    by blast
  from 1 2 3 4 show ?thesis by (simp add: e)
qed

section \<open>Properties of the orchestrator\<close>

lemma step_in_progress:
  assumes "step env p b = (p', b')" and "in_progress p"
  shows "(in_progress p' \<and> isRunning b' = isRunning b) \<or>
         (\<exists>r. p' = Done r \<and> r \<noteq> Returned None \<and> \<not> isRunning b')"
  using assms
  by (cases p)
     (auto simp: finish_def Let_def split: prod.splits outcome.splits option.splits if_splits)

lemma step_remaining: "remaining (fst (step env p b)) \<le> remaining p - 1"
  by (cases p)
     (auto simp: finish_def Let_def split: prod.splits outcome.splits option.splits if_splits)

lemma step_guard_inv:
  assumes "step env p b = (p', b')"
      and "in_progress p \<longrightarrow> isRunning b"
      and "\<forall>r. p = Done r \<longrightarrow> r = Returned None \<or> \<not> isRunning b"
  shows "(in_progress p' \<longrightarrow> isRunning b') \<and>
         (\<forall>r. p' = Done r \<longrightarrow> r = Returned None \<or> \<not> isRunning b')"
proof (cases "in_progress p")
  case True
  from step_in_progress [OF assms(1) True] assms(2) True show ?thesis by auto
next
  case False
  then show ?thesis using assms by (cases p) (auto split: if_splits)
qed

lemma step_not_skipped:
  assumes "step env p b = (p', b')" and "p \<noteq> Entry" and "p \<noteq> Done (Returned None)"
  shows "p' \<noteq> Entry \<and> p' \<noteq> Done (Returned None)"
proof (cases "in_progress p")
  case True
  from step_in_progress [OF assms(1) True] show ?thesis by auto
next
  case False
  then show ?thesis using assms by (cases p) auto
qed

lemma remaining_0: "remaining p = 0 \<Longrightarrow> \<exists>r. p = Done r"
  by (cases p) auto

subsection \<open>A run of the demonstration bot\<close>

lemma getRandomInterview_demo:
  "getRandomInterview (reader_part demo_bot_env) fresh_reader =
     (Returned (hd demo_loaded),
      \<lparr> interviews = Some demo_loaded, lastLoadTime = Some 1000, file_reads = 1 \<rparr>)"
proof -
  let ?env = "stub_reader_env (Returned (Array demo_entries)) 1000 (0, 0)"
  have r: "is_unit_double (Math_random ?env)" "needs_load ?env fresh_reader"
    by (simp_all add: stub_reader_env_def needs_load_def fresh_reader_def is_unit_double_def
          two53_def)
  have h: "readParsed ?env = Returned (Array demo_entries)" "load_time ?env = 1000"
          "Math_random ?env = (0, 0)"
    by (simp_all add: stub_reader_env_def)
  have "getRandomInterview ?env fresh_reader =
     (Returned (hd demo_loaded),
      \<lparr> interviews = Some demo_loaded, lastLoadTime = Some 1000, file_reads = 1 \<rparr>)"
    unfolding getRandomInterview_reload [OF r] loadInterviews_Array [OF h(1)] process_entries_demo
    by (simp add: h random_index_zero fresh_reader_def demo_loaded_def)
  then show ?thesis by (simp add: demo_bot_env_def)
qed

lemma getRandomInterview_failing:
  "getRandomInterview (reader_part failing_bot_env) fresh_reader =
     (Threw (External (js ''ENOENT'')), fresh_reader\<lparr> file_reads := 1 \<rparr>)"
  by (simp add: failing_bot_env_def demo_bot_env_def getRandomInterview_def needs_load_def
        loadInterviews_def stub_reader_env_def fresh_reader_def)

lemma demo_interview_fields:
  "content (hd demo_loaded) = long_text" "title (hd demo_loaded) = js ''Interview''"
  "url (hd demo_loaded) = js ''https://x.test/i1''"
  by (simp_all add: demo_loaded_def)

lemma extractQuotes_demo:
  "extractQuotes (ai_part demo_bot_env) \<lparr> provider = js ''openai'' \<rparr> c t =
     Returned (Some [demo_quote])"
proof -
  have p: "js ''openai'' \<in> set supported_providers"
    by (simp add: supported_providers_def js_def)
  have q: "cleanQuote (Some (js ''  `Life is short.`  '')) = Some (js ''Life is short.'')"
    by code_simp
  have n: "js ''Life is short.'' \<noteq> []" "js ''Life is short.'' \<noteq> ERROR_NO_QUOTE"
    by (simp_all add: js_def ERROR_NO_QUOTE_def)
  show ?thesis
    by (simp add: extractQuotes_def demo_bot_env_def stub_ai_env_def p q n demo_quote_def)
qed

lemma demo_mail_to: "js ''a@x.test'' @ js '', '' @ js ''b@x.test'' = js ''a@x.test, b@x.test''"
  by (simp add: js_def)

lemma sendQuoteEmail_demo:
  "sendQuoteEmail (mail_part demo_bot_env) fresh_sender (getEmailRecipients demo_bot_env)
      (js ''OWENSQUOTE: '' @ js ''Interview'') (js ''Life is short.'') (js ''Life is short.'') =
     (Returned \<lparr> messageId = js ''<message-1@x.test>'',
                 receipt_recipients = [js ''a@x.test'', js ''b@x.test''],
                 sentAt = js ''2025-01-01T09:00:01.000Z'' \<rparr>,
      \<lparr> isConfigured = True, transporter = True,
        smtp_calls = [Verify, SendMail demo_mail], delivered = [demo_mail] \<rparr>)"
proof -
  have s: "js ''OWENSQUOTE: '' @ js ''Interview'' = js ''OWENSQUOTE: Interview''"
    by (simp add: js_def)
  show ?thesis
    unfolding s
    by (simp add: sendQuoteEmail_def init_cases demo_bot_env_def stub_mail_env_def
          fresh_sender_def demo_mail_to demo_mail_def Let_def)
qed

lemma demo_duration: "Math_round (of_int (3600 - 1000) / 1000) = 3"
  by (simp add: Math_round_def floor_eq_iff)

lemma demo_steps:
  "step demo_bot_env Entry demo_bot = (AwaitInterview, demo_bot\<lparr> isRunning := True \<rparr>)"
  "step demo_bot_env AwaitInterview (demo_bot\<lparr> isRunning := True \<rparr>) =
     (AwaitQuotes (hd demo_loaded), demo_bot_loaded)"
  "step demo_bot_env (AwaitQuotes (hd demo_loaded)) demo_bot_loaded =
     (AwaitSend (hd demo_loaded) [demo_quote], demo_bot_loaded)"
  "step demo_bot_env (AwaitSend (hd demo_loaded) [demo_quote]) demo_bot_loaded =
     (Done (Returned (Some demo_result)), demo_bot_after)"
proof -
  show "step demo_bot_env Entry demo_bot = (AwaitInterview, demo_bot\<lparr> isRunning := True \<rparr>)"
    by (simp add: demo_bot_def)
  show "step demo_bot_env AwaitInterview (demo_bot\<lparr> isRunning := True \<rparr>) =
     (AwaitQuotes (hd demo_loaded), demo_bot_loaded)"
    by (simp add: demo_bot_def getRandomInterview_demo demo_interview_fields long_text_facts
          demo_bot_loaded_def)
  show "step demo_bot_env (AwaitQuotes (hd demo_loaded)) demo_bot_loaded =
     (AwaitSend (hd demo_loaded) [demo_quote], demo_bot_loaded)"
    by (simp add: demo_bot_loaded_def extractQuotes_demo)
  have f: "formatEmail demo_bot_env (hd demo_loaded) [demo_quote] =
             (js ''Life is short.'', js ''Life is short.'')"
          "getEmailRecipients demo_bot_env = [js ''a@x.test'', js ''b@x.test'']"
          "start_time demo_bot_env = 1000" "end_time demo_bot_env = 3600"
    by (simp_all add: demo_bot_env_def demo_quote_def)
  have e: "emailSender demo_bot_loaded = fresh_sender" by (simp add: demo_bot_loaded_def)
  have d: "Math_round (of_int (end_time demo_bot_env - start_time demo_bot_env) / 1000) = 3"
    unfolding f by (rule demo_duration)
  have s: "sendQuoteEmail (mail_part demo_bot_env) (emailSender demo_bot_loaded)
             (getEmailRecipients demo_bot_env) (js ''OWENSQUOTE: '' @ title (hd demo_loaded))
             (fst (formatEmail demo_bot_env (hd demo_loaded) [demo_quote]))
             (snd (formatEmail demo_bot_env (hd demo_loaded) [demo_quote])) =
     (Returned \<lparr> messageId = js ''<message-1@x.test>'',
                 receipt_recipients = [js ''a@x.test'', js ''b@x.test''],
                 sentAt = js ''2025-01-01T09:00:01.000Z'' \<rparr>,
      \<lparr> isConfigured = True, transporter = True,
        smtp_calls = [Verify, SendMail demo_mail], delivered = [demo_mail] \<rparr>)"
    unfolding e f(1) demo_interview_fields fst_conv snd_conv by (rule sendQuoteEmail_demo)
  show "step demo_bot_env (AwaitSend (hd demo_loaded) [demo_quote]) demo_bot_loaded =
     (Done (Returned (Some demo_result)), demo_bot_after)"
    unfolding step.simps Let_def s d
    by (simp add: finish_def demo_interview_fields f(2) demo_result_def demo_bot_loaded_def
          demo_bot_after_def)
qed

lemma failing_steps:
  "step failing_bot_env Entry demo_bot = (AwaitInterview, demo_bot\<lparr> isRunning := True \<rparr>)"
  "step failing_bot_env AwaitInterview (demo_bot\<lparr> isRunning := True \<rparr>) =
     (Done (Threw (External (js ''ENOENT''))),
      demo_bot\<lparr> interviewReader := fresh_reader\<lparr> file_reads := 1 \<rparr> \<rparr>)"
  by (simp_all add: demo_bot_def getRandomInterview_failing finish_def)

lemma processQuote_demo:
  "processQuote demo_bot_env demo_bot = (Done (Returned (Some demo_result)), demo_bot_after)"
  by (simp only: processQuote_def demo_steps prod.case)

lemma processQuote_failing:
  "processQuote failing_bot_env demo_bot =
     (Done (Threw (External (js ''ENOENT''))),
      demo_bot\<lparr> interviewReader := fresh_reader\<lparr> file_reads := 1 \<rparr> \<rparr>)"
  by (simp only: processQuote_def failing_steps prod.case step.simps(5))

subsection \<open>The guard is released\<close>

text \<open>
  C8. An invocation of \<open>processQuote\<close> that runs on its own always settles. When it settles
  by throwing or by returning its summary, \<open>isRunning\<close> is false afterwards. In particular,
  started with the guard clear it never takes the early exit, it leaves the guard clear
  whatever happens in it, and the next invocation gets past the guard.
\<close>

theorem processQuote_releases_guard:
  "(\<exists>r. fst (processQuote env b) = Done r) \<and>
   (\<forall>r. fst (processQuote env b) = Done r \<and> r \<noteq> Returned None
        \<longrightarrow> \<not> isRunning (snd (processQuote env b))) \<and>
   (\<not> isRunning b \<longrightarrow>
      fst (processQuote env b) \<noteq> Done (Returned None) \<and>
      \<not> isRunning (snd (processQuote env b)) \<and>
      fst (step env Entry (snd (processQuote env b))) = AwaitInterview)"
proof -
  obtain p1 b1 where s1: "step env Entry b = (p1, b1)" by (cases "step env Entry b")
  obtain p2 b2 where s2: "step env p1 b1 = (p2, b2)" by (cases "step env p1 b1")
  obtain p3 b3 where s3: "step env p2 b2 = (p3, b3)" by (cases "step env p2 b2")
  obtain p4 b4 where s4: "step env p3 b3 = (p4, b4)" by (cases "step env p3 b3")
  have pq: "processQuote env b = (p4, b4)"
    by (simp only: processQuote_def s1 s2 s3 s4 prod.case)
  have "remaining p1 \<le> 3" using step_remaining [of env Entry b] s1 by simp
  moreover have "remaining p2 \<le> remaining p1 - 1" using step_remaining [of env p1 b1] s2 by simp
  moreover have "remaining p3 \<le> remaining p2 - 1" using step_remaining [of env p2 b2] s3 by simp
  moreover have "remaining p4 \<le> remaining p3 - 1" using step_remaining [of env p3 b3] s4 by simp
  ultimately have "remaining p4 = 0" by arith
  then obtain r4 where d: "p4 = Done r4" by (blast dest: remaining_0)
  have i1: "(in_progress p1 \<longrightarrow> isRunning b1) \<and>
            (\<forall>r. p1 = Done r \<longrightarrow> r = Returned None \<or> \<not> isRunning b1)"
    by (rule step_guard_inv [OF s1]) simp_all
  then have i2: "(in_progress p2 \<longrightarrow> isRunning b2) \<and>
            (\<forall>r. p2 = Done r \<longrightarrow> r = Returned None \<or> \<not> isRunning b2)"
    by (intro step_guard_inv [OF s2]) blast+
  then have i3: "(in_progress p3 \<longrightarrow> isRunning b3) \<and>
            (\<forall>r. p3 = Done r \<longrightarrow> r = Returned None \<or> \<not> isRunning b3)"
    by (intro step_guard_inv [OF s3]) blast+
  then have i4: "(in_progress p4 \<longrightarrow> isRunning b4) \<and>
            (\<forall>r. p4 = Done r \<longrightarrow> r = Returned None \<or> \<not> isRunning b4)"
    by (intro step_guard_inv [OF s4]) blast+
  have n: "\<not> isRunning b \<longrightarrow> r4 \<noteq> Returned None"
  proof
    assume "\<not> isRunning b"
    with s1 have "p1 \<noteq> Entry \<and> p1 \<noteq> Done (Returned None)" by auto
    then have "p2 \<noteq> Entry \<and> p2 \<noteq> Done (Returned None)" using step_not_skipped [OF s2] by blast
    then have "p3 \<noteq> Entry \<and> p3 \<noteq> Done (Returned None)" using step_not_skipped [OF s3] by blast
    then have "p4 \<noteq> Entry \<and> p4 \<noteq> Done (Returned None)" using step_not_skipped [OF s4] by blast
    with d show "r4 \<noteq> Returned None" by simp
  qed
  from d i4 n show ?thesis by (auto simp: pq)
qed

theorem processQuote_releases_guard_witness:
  "processQuote demo_bot_env demo_bot = (Done (Returned (Some demo_result)), demo_bot_after) \<and>
   \<not> isRunning (snd (processQuote demo_bot_env demo_bot)) \<and>
   fst (processQuote failing_bot_env demo_bot) = Done (Threw (External (js ''ENOENT''))) \<and>
   \<not> isRunning (snd (processQuote failing_bot_env demo_bot)) \<and>
   fst (step failing_bot_env Entry (snd (processQuote failing_bot_env demo_bot))) = AwaitInterview"
proof -
  have n: "\<not> isRunning demo_bot" by (simp add: demo_bot_def)
  have a: "fst (processQuote demo_bot_env demo_bot) = Done (Returned (Some demo_result)) \<and>
           Returned (Some demo_result) \<noteq> Returned None"
    by (simp add: processQuote_demo)
  have b: "fst (processQuote failing_bot_env demo_bot) = Done (Threw (External (js ''ENOENT'')))
           \<and> Threw (External (js ''ENOENT'')) \<noteq> Returned None"
    by (simp add: processQuote_failing)
  from processQuote_releases_guard [of demo_bot_env demo_bot] a
  have 1: "\<not> isRunning (snd (processQuote demo_bot_env demo_bot))" by blast
  from processQuote_releases_guard [of failing_bot_env demo_bot] b
  have 2: "\<not> isRunning (snd (processQuote failing_bot_env demo_bot))" by blast
  from processQuote_releases_guard [of failing_bot_env demo_bot] n
  have 3: "fst (step failing_bot_env Entry (snd (processQuote failing_bot_env demo_bot)))
             = AwaitInterview" by blast
  from processQuote_demo 1 b 2 3 show ?thesis by blast
qed


subsection \<open>A call during a run\<close>

lemma mutex_step: "interleave env st st' \<Longrightarrow> mutex st \<Longrightarrow> mutex st'"
proof (induction rule: interleave.induct)
  case (first p b p' b' q)
  show ?case
  proof (cases "in_progress p")
    case True
    from step_in_progress [OF first.hyps True] first.prems True show ?thesis
      by (auto simp: mutex_def)
  next
    case False
    with first show ?thesis by (cases p) (auto simp: mutex_def split: if_splits)
  qed
next
  case (second q b q' b' p)
  show ?case
  proof (cases "in_progress q")
    case True
    from step_in_progress [OF second.hyps True] second.prems True show ?thesis
      by (auto simp: mutex_def)
  next
    case False
    with second show ?thesis by (cases q) (auto simp: mutex_def split: if_splits)
  qed
qed

lemma mutex_reachable: "(interleave env)\<^sup>*\<^sup>* st st' \<Longrightarrow> mutex st \<Longrightarrow> mutex st'"
  by (induction rule: rtranclp_induct) (auto intro: mutex_step)

lemma sendQuoteEmail_delivered:
  "sendQuoteEmail env s rc su t h = (r, s') \<Longrightarrow>
   length (delivered s') =
     length (delivered s) + (case r of Returned x \<Rightarrow> 1 | Threw e \<Rightarrow> 0)"
  by (auto simp: sendQuoteEmail_def init_cases Let_def
           split: if_splits outcome.splits option.splits)

lemma step_balance:
  assumes "step env p b = (p', b')"
  shows "int (length (delivered (emailSender b'))) - int (sends p') =
         int (length (delivered (emailSender b))) - int (sends p)"
proof (cases p)
  case (AwaitSend i qs)
  obtain r s where e: "sendQuoteEmail (mail_part env) (emailSender b) (getEmailRecipients env)
        (js ''OWENSQUOTE: '' @ title i) (fst (formatEmail env i qs)) (snd (formatEmail env i qs))
        = (r, s)"
    by (cases "sendQuoteEmail (mail_part env) (emailSender b) (getEmailRecipients env)
        (js ''OWENSQUOTE: '' @ title i) (fst (formatEmail env i qs)) (snd (formatEmail env i qs))")
  from sendQuoteEmail_delivered [OF e] assms AwaitSend e show ?thesis
    by (cases r) (auto simp: finish_def Let_def)
qed (use assms in \<open>auto simp: finish_def Let_def
       split: prod.splits outcome.splits option.splits if_splits\<close>)

lemma balance_step: "interleave env st st' \<Longrightarrow> balance st' = balance st"
proof (induction rule: interleave.induct)
  case (first p b p' b' q)
  from step_balance [OF first.hyps] show ?case by (simp add: balance_def)
next
  case (second q b q' b' p)
  from step_balance [OF second.hyps] show ?case by (simp add: balance_def)
qed

lemma balance_reachable: "(interleave env)\<^sup>*\<^sup>* st st' \<Longrightarrow> balance st' = balance st"
  by (induction rule: rtranclp_induct) (auto dest: balance_step)

text \<open>
  C7. Two invocations of \<open>processQuote\<close> on an idle bot, in any interleaving of their
  pieces. At a moment when the first is in progress and the second has not run yet, the
  second, when it runs, returns \<open>undefined\<close> at once and leaves the bot, with its record of
  network calls and delivered messages, exactly as it is. Nothing has been delivered up to
  that moment, and when the first invocation has settled as well, the number of messages
  delivered since the start is 1 if it returned its summary and 0 if it threw: the second
  invocation sends nothing.
\<close>

theorem processQuote_reentrant_call_is_noop:
  assumes "\<not> isRunning b0"
      and "(interleave env)\<^sup>*\<^sup>* (b0, Entry, Entry) (b, p, Entry)"
      and "in_progress p"
  shows "step env Entry b = (Done (Returned None), b) \<and>
         processQuote env b = (Done (Returned None), b) \<and>
         length (delivered (emailSender b)) = length (delivered (emailSender b0)) \<and>
         (\<forall>b' r. (interleave env)\<^sup>*\<^sup>* (b, p, Done (Returned None)) (b', Done r, Done (Returned None))
            \<longrightarrow> length (delivered (emailSender b')) =
                  length (delivered (emailSender b0)) + sends (Done r))"
proof -
  have "mutex (b0, Entry, Entry)" using assms(1) by (simp add: mutex_def)
  from mutex_reachable [OF assms(2) this] assms(3) have run: "isRunning b"
    by (simp add: mutex_def)
  then have 1: "step env Entry b = (Done (Returned None), b)" by simp
  then have 2: "processQuote env b = (Done (Returned None), b)"
    by (simp add: processQuote_def)
  from balance_reachable [OF assms(2)] assms(3)
  have 3: "length (delivered (emailSender b)) = length (delivered (emailSender b0))"
    by (cases p) (simp_all add: balance_def)
  have 4: "\<forall>b' r. (interleave env)\<^sup>*\<^sup>* (b, p, Done (Returned None)) (b', Done r, Done (Returned None))
            \<longrightarrow> length (delivered (emailSender b')) =
                  length (delivered (emailSender b0)) + sends (Done r)"
  proof (intro allI impI)
    fix b' r
    assume "(interleave env)\<^sup>*\<^sup>* (b, p, Done (Returned None)) (b', Done r, Done (Returned None))"
    from balance_reachable [OF this] assms(3) 3
    show "length (delivered (emailSender b')) =
            length (delivered (emailSender b0)) + sends (Done r)"
      by (cases p) (simp_all add: balance_def)
  qed
  from 1 2 3 4 show ?thesis by blast
qed

theorem processQuote_reentrant_call_is_noop_witness:
  "step demo_bot_env Entry (demo_bot\<lparr> isRunning := True \<rparr>) =
     (Done (Returned None), demo_bot\<lparr> isRunning := True \<rparr>) \<and>
   (interleave demo_bot_env)\<^sup>*\<^sup>* (demo_bot, Entry, Entry)
      (demo_bot_after, Done (Returned (Some demo_result)), Done (Returned None)) \<and>
   length (delivered (emailSender demo_bot_after)) = 1"
proof -
  let ?b1 = "demo_bot\<lparr> isRunning := True \<rparr>"
  let ?I = "interleave demo_bot_env"
  have n: "\<not> isRunning demo_bot" by (simp add: demo_bot_def)
  have d0: "length (delivered (emailSender demo_bot)) = 0"
    by (simp add: demo_bot_def fresh_sender_def)
  have r1: "?I\<^sup>*\<^sup>* (demo_bot, Entry, Entry) (?b1, AwaitInterview, Entry)"
    using interleave.first [OF demo_steps(1), of Entry] by blast
  have ip: "in_progress AwaitInterview" by simp
  note t = processQuote_reentrant_call_is_noop [OF n r1 ip]
  from t have skip: "step demo_bot_env Entry ?b1 = (Done (Returned None), ?b1)" by blast
  have r2: "?I (?b1, AwaitInterview, Entry) (?b1, AwaitInterview, Done (Returned None))"
    by (rule interleave.second [OF skip])
  have r3: "?I (?b1, AwaitInterview, Done (Returned None))
               (demo_bot_loaded, AwaitQuotes (hd demo_loaded), Done (Returned None))"
    by (rule interleave.first [OF demo_steps(2)])
  have r4: "?I (demo_bot_loaded, AwaitQuotes (hd demo_loaded), Done (Returned None))
               (demo_bot_loaded, AwaitSend (hd demo_loaded) [demo_quote], Done (Returned None))"
    by (rule interleave.first [OF demo_steps(3)])
  have r5: "?I (demo_bot_loaded, AwaitSend (hd demo_loaded) [demo_quote], Done (Returned None))
               (demo_bot_after, Done (Returned (Some demo_result)), Done (Returned None))"
    by (rule interleave.first [OF demo_steps(4)])
  from r3 r4 r5
  have tail: "?I\<^sup>*\<^sup>* (?b1, AwaitInterview, Done (Returned None))
                 (demo_bot_after, Done (Returned (Some demo_result)), Done (Returned None))"
    by (meson rtranclp.rtrancl_into_rtrancl rtranclp.rtrancl_refl)
  from t tail
  have "length (delivered (emailSender demo_bot_after)) =
          length (delivered (emailSender demo_bot)) + sends (Done (Returned (Some demo_result)))"
    by blast
  then have one: "length (delivered (emailSender demo_bot_after)) = 1" by (simp add: d0)
  from r1 r2 tail
  have all: "?I\<^sup>*\<^sup>* (demo_bot, Entry, Entry)
                (demo_bot_after, Done (Returned (Some demo_result)), Done (Returned None))"
    by (meson rtranclp.rtrancl_into_rtrancl rtranclp_trans)
  from skip all one show ?thesis by blast
qed


end
